theory Spec2Isabelle
  imports Main "HOL-Library.AList"
begin

section \<open>Badger Connect backend: data model\<close>

text \<open>
  The backend (\<^verbatim>\<open>backend/server.js\<close>) keeps four process-wide tables:
  \<^verbatim>\<open>reputations\<close>, \<^verbatim>\<open>waitingQueues\<close>, \<^verbatim>\<open>sessions\<close> and
  \<^verbatim>\<open>emailToSockets\<close>, and reads the transport's table of connected sockets
  \<^verbatim>\<open>io.sockets.sockets\<close>. Every handler is modelled as a function from the state to the
  list of messages it emits and the new state. Socket ids, emails and session ids are
  JavaScript strings; a missing (undefined) string field of a payload is the empty string,
  which is falsy like \<^verbatim>\<open>undefined\<close>.
\<close>

type_synonym handle = string
type_synonym email = string
type_synonym session_id = string

record reputation =
  likes :: nat
  dislikes :: nat
  reports :: nat
  banned :: bool

definition REPORT_THRESHOLD :: nat where
  "REPORT_THRESHOLD = 3"

definition DISLIKE_THRESHOLD :: nat where
  "DISLIKE_THRESHOLD = 10"

definition zero_reputation :: reputation where
  "zero_reputation = \<lparr>likes = 0, dislikes = 0, reports = 0, banned = False\<rparr>"

subsection \<open>Reputation ledger\<close>

text \<open>
  \<^verbatim>\<open>getReputation\<close> returns the stored object itself, so what the caller later writes to
  it is written to the ledger. For the empty email it returns a fresh object that is stored
  nowhere. The model returns the record together with the ledger after the call.
\<close>

definition getReputation :: "email \<Rightarrow> (email \<rightharpoonup> reputation) \<Rightarrow> reputation \<times> (email \<rightharpoonup> reputation)" where
  "getReputation email reputations =
     (if email = [] then (zero_reputation, reputations)
      else (case reputations email of
              None \<Rightarrow> (zero_reputation, reputations(email \<mapsto> zero_reputation))
            | Some r \<Rightarrow> (r, reputations)))"

definition applyReaction ::
  "email \<Rightarrow> string \<Rightarrow> (email \<rightharpoonup> reputation) \<Rightarrow> reputation \<times> (email \<rightharpoonup> reputation)" where
  "applyReaction email type reputations =
     (let (profile, reps1) = getReputation email reputations;
          p1 = (if type = ''like'' then profile\<lparr>likes := likes profile + 1\<rparr> else profile);
          p2 = (if type = ''dislike'' then p1\<lparr>dislikes := dislikes p1 + 1\<rparr> else p1);
          p3 = (if type = ''report'' then p2\<lparr>reports := reports p2 + 1\<rparr> else p2);
          p4 = (if reports p3 \<ge> REPORT_THRESHOLD \<or> dislikes p3 \<ge> DISLIKE_THRESHOLD
                then p3\<lparr>banned := True\<rparr> else p3)
      in (p4, if email = [] then reps1 else reps1(email \<mapsto> p4)))"

text \<open>The record a reader sees for an email: what \<^verbatim>\<open>getReputation\<close> returns.\<close>

definition record_of :: "(email \<rightharpoonup> reputation) \<Rightarrow> email \<Rightarrow> reputation" where
  "record_of reputations email = fst (getReputation email reputations)"

text \<open>A sequence of \<^verbatim>\<open>applyReaction(email, type)\<close> calls, run from a given ledger.\<close>

fun applyReactions :: "(email \<times> string) list \<Rightarrow> (email \<rightharpoonup> reputation) \<Rightarrow> (email \<rightharpoonup> reputation)" where
  "applyReactions [] reputations = reputations"
| "applyReactions ((email, type) # calls) reputations =
     applyReactions calls (snd (applyReaction email type reputations))"

definition ban_rule :: "reputation \<Rightarrow> bool" where
  "ban_rule r = (banned r = (reports r \<ge> REPORT_THRESHOLD \<or> dislikes r \<ge> DISLIKE_THRESHOLD))"


subsection \<open>Profiles, sessions and the server state\<close>

datatype mode = Text | Video

text \<open>
  \<^verbatim>\<open>waitingQueues[mode]\<close> for the payload's \<^verbatim>\<open>mode\<close> string. The object has the two
  own keys \<^verbatim>\<open>text\<close> and \<^verbatim>\<open>video\<close>, which give the queues (\<open>queue_key\<close>). It is an
  object literal, so the lookup also finds the properties inherited from
  \<^verbatim>\<open>Object.prototype\<close> (\<open>inherited_key\<close>): their values are truthy, so they pass the
  handler's guard \<^verbatim>\<open>!waitingQueues[mode]\<close>, but they are no arrays. Any other string,
  the missing mode included, gives \<^verbatim>\<open>undefined\<close>.
\<close>

definition queue_key :: "string \<Rightarrow> mode option" where
  "queue_key k = (if k = ''text'' then Some Text else if k = ''video'' then Some Video else None)"

definition inherited_key :: "string \<Rightarrow> bool" where
  "inherited_key k =
     (k \<in> set [''constructor'', ''toString'', ''toLocaleString'', ''valueOf'', ''hasOwnProperty'',
                ''isPrototypeOf'', ''propertyIsEnumerable'', ''__proto__'', ''__defineGetter__'',
                ''__defineSetter__'', ''__lookupGetter__'', ''__lookupSetter__''])"

record profile =
  name :: string
  email :: string
  interests :: "string list"

text \<open>
  \<^verbatim>\<open>String.prototype.toLowerCase\<close>. A \<^typ>\<open>char\<close> stands for one UTF-16 code unit
  below 256 (the Latin-1 range): the capital letters there are A to Z (65 to 90) and the
  accented capitals 192 to 214 and 216 to 222, each 32 below its small letter. Strings with
  code units from 256 on are outside the model.
\<close>

definition lower_char :: "char \<Rightarrow> char" where
  "lower_char c =
     (let n = (of_char c :: nat)
      in if (65 \<le> n \<and> n \<le> 90) \<or> (192 \<le> n \<and> n \<le> 214) \<or> (216 \<le> n \<and> n \<le> 222)
         then char_of (n + 32) else c)"

definition toLowerCase :: "string \<Rightarrow> string" where
  "toLowerCase str = map lower_char str"

text \<open>
  \<^verbatim>\<open>sanitizeProfile\<close>: its default parameter covers \<^verbatim>\<open>undefined\<close> only, and
  \<^verbatim>\<open>socket.data.profile\<close> is \<^verbatim>\<open>null\<close> until the first \<^verbatim>\<open>profile:update\<close>; reading
  \<^verbatim>\<open>null.name\<close> throws a TypeError, the result \<open>None\<close> here.
\<close>

definition sanitizeProfile :: "profile option \<Rightarrow> profile option" where
  "sanitizeProfile po =
     (case po of
        None \<Rightarrow> None
      | Some p \<Rightarrow> Some \<lparr>name = (if name p = [] then ''Unknown Badger'' else name p),
                         email = email p,
                         interests = interests p\<rparr>)"

record session =
  sess_id :: session_id
  sess_mode :: mode
  participants :: "handle list"
  startedAt :: nat

record socket_data =
  profile :: "profile option"
  mode :: "mode option"

text \<open>
  \<^verbatim>\<open>sessions\<close> is a JavaScript \<^verbatim>\<open>Map\<close>, iterated in insertion order by
  \<^verbatim>\<open>findSessionBySocket\<close>: an association list, with \<^const>\<open>AList.update\<close> for
  \<^verbatim>\<open>set\<close> (in place for a known key, at the end for a new one) and
  \<^const>\<open>AList.delete\<close> for \<^verbatim>\<open>delete\<close>. A \<^verbatim>\<open>Set\<close> of socket ids is a list without
  repetitions in insertion order. \<open>connected\<close> is the key set of
  \<^verbatim>\<open>io.sockets.sockets\<close>; \<open>socket_data\<close> is each socket object's \<^verbatim>\<open>data\<close>;
  \<open>uuid_calls\<close> counts the calls of \<^verbatim>\<open>uuidv4\<close> made so far.
\<close>

record state =
  reputations :: "email \<rightharpoonup> reputation"
  waitingQueues :: "mode \<Rightarrow> handle list"
  sessions :: "(session_id \<times> session) list"
  emailToSockets :: "email \<rightharpoonup> handle list"
  connected :: "handle set"
  socket_data :: "handle \<Rightarrow> socket_data"
  uuid_calls :: nat

definition initial_state :: state where
  "initial_state =
     \<lparr>reputations = Map.empty,
      waitingQueues = (\<lambda>_. []),
      sessions = [],
      emailToSockets = Map.empty,
      connected = {},
      socket_data = (\<lambda>_. \<lparr>profile = None, mode = None\<rparr>),
      uuid_calls = 0\<rparr>"

subsection \<open>Messages sent by the server\<close>

text \<open>
  The value of a payload field the server forwards without reading it (a session
  description, an ICE candidate): \<open>Blob\<close> is an object, opaque here. \<open>falsy\<close> is
  JavaScript's \<^verbatim>\<open>!value\<close>; numbers are integers here, so \<^verbatim>\<open>NaN\<close> is not among them.
\<close>

datatype blob = Undefined | Null | JsBool bool | JsNum int | JsStr string | Blob string

definition falsy :: "blob \<Rightarrow> bool" where
  "falsy v = (v = Undefined \<or> v = Null \<or> v = JsBool False \<or> v = JsNum 0 \<or> v = JsStr [])"

datatype signal = Offer | Answer | IceCandidate

datatype recipient = To handle | Everyone

text \<open>
  \<open>ProfileReputation\<close> is \<^verbatim>\<open>profile:reputation\<close> sent to one socket with the bare
  record, \<open>ReputationBroadcast\<close> the same event sent with \<^verbatim>\<open>io.emit\<close> and the email.
\<close>

datatype message =
    SystemBanned reputation
  | ProfileReputation reputation
  | ReputationBroadcast email reputation
  | SystemError string
  | MatchQueued mode nat
  | MatchPaired session_id mode profile bool
  | ChatTextMessage session_id string string nat
  | SystemSessionEnded session_id
  | SystemPartnerLeft session_id
  | Webrtc signal session_id blob

type_synonym emit = "recipient \<times> message"

subsection \<open>Helpers of the server\<close>

definition set_add :: "'a \<Rightarrow> 'a list \<Rightarrow> 'a list" where
  "set_add x xs = (if x \<in> set xs then xs else xs @ [x])"

definition registerSocketForEmail :: "handle \<Rightarrow> email \<Rightarrow> state \<Rightarrow> state" where
  "registerSocketForEmail socketId e s =
     (if e = [] then s
      else (let normalized = toLowerCase e;
                sockets = (case emailToSockets s normalized of None \<Rightarrow> [] | Some hs \<Rightarrow> hs)
            in s\<lparr>emailToSockets := (emailToSockets s)(normalized \<mapsto> set_add socketId sockets)\<rparr>))"

definition unregisterSocket :: "handle \<Rightarrow> state \<Rightarrow> state" where
  "unregisterSocket socketId s =
     s\<lparr>emailToSockets :=
         (\<lambda>e. case emailToSockets s e of
                 None \<Rightarrow> None
               | Some hs \<Rightarrow> (let hs' = removeAll socketId hs in if hs' = [] then None else Some hs'))\<rparr>"

definition removeFromQueues :: "handle \<Rightarrow> state \<Rightarrow> state" where
  "removeFromQueues socketId s =
     s\<lparr>waitingQueues := (\<lambda>m. filter (\<lambda>entry. entry \<noteq> socketId) (waitingQueues s m))\<rparr>"

definition findSessionBySocket :: "handle \<Rightarrow> state \<Rightarrow> (session_id \<times> session) option" where
  "findSessionBySocket socketId s =
     find (\<lambda>(sessionId, sess). socketId \<in> set (participants sess)) (sessions s)"

subsection \<open>Pairing, teardown and relay\<close>

text \<open>
  \<^verbatim>\<open>attemptPair\<close>: the \<^verbatim>\<open>while\<close> loop as a recursion on the state. \<open>uuid\<close> is the
  source of session ids (\<open>uuid n\<close> is what the \<open>n\<close>-th call of \<^verbatim>\<open>uuidv4\<close> returns) and
  \<open>now\<close> the reading of \<^verbatim>\<open>Date.now()\<close>. The result is \<open>None\<close> when
  \<^verbatim>\<open>sanitizeProfile\<close> throws.
\<close>

function attemptPair :: "(nat \<Rightarrow> session_id) \<Rightarrow> nat \<Rightarrow> mode \<Rightarrow> state \<Rightarrow> (emit list \<times> state) option" where
  "attemptPair uuid now m s =
     (case waitingQueues s m of
        first # second # rest \<Rightarrow>
          (let s1 = s\<lparr>waitingQueues := (waitingQueues s)(m := rest)\<rparr> in
           if first \<notin> connected s1 \<or> second \<notin> connected s1 then attemptPair uuid now m s1
           else
             (let sessionId = uuid (uuid_calls s1);
                  s2 = s1\<lparr>sessions :=
                            AList.update sessionId
                              \<lparr>sess_id = sessionId, sess_mode = m,
                               participants = [first, second], startedAt = now\<rparr>
                              (sessions s1),
                          uuid_calls := Suc (uuid_calls s1)\<rparr>
              in case sanitizeProfile (profile (socket_data s2 second)) of
                   None \<Rightarrow> None
                 | Some profileA \<Rightarrow>
                     (case sanitizeProfile (profile (socket_data s2 first)) of
                        None \<Rightarrow> None
                      | Some profileB \<Rightarrow>
                          (case attemptPair uuid now m s2 of
                             None \<Rightarrow> None
                           | Some (out, s3) \<Rightarrow>
                               Some ((To first, MatchPaired sessionId m profileA True)
                                     # (To second, MatchPaired sessionId m profileB False)
                                     # out, s3)))))
      | _ \<Rightarrow> Some ([], s))"
  by pat_completeness auto
termination
  by (relation "measure (\<lambda>(uuid, now, m, s). length (waitingQueues s m))") auto

declare attemptPair.simps [simp del]

definition endSession :: "session_id \<Rightarrow> handle \<Rightarrow> state \<Rightarrow> emit list \<times> state" where
  "endSession sessionId leaverId s =
     (case map_of (sessions s) sessionId of
        None \<Rightarrow> ([], s)
      | Some sess \<Rightarrow>
          (concat (map (\<lambda>participantId.
                          if participantId \<notin> connected s then []
                          else if participantId = leaverId
                               then [(To participantId, SystemSessionEnded sessionId)]
                               else [(To participantId, SystemPartnerLeft sessionId)])
                       (participants sess)),
           s\<lparr>sessions := AList.delete sessionId (sessions s)\<rparr>))"

definition relayToSessionPeer ::
  "session_id \<Rightarrow> handle \<Rightarrow> signal \<Rightarrow> blob \<Rightarrow> state \<Rightarrow> emit list \<times> state" where
  "relayToSessionPeer sessionId senderId ev payload s =
     (case map_of (sessions s) sessionId of
        None \<Rightarrow> ([], s)
      | Some sess \<Rightarrow>
          if senderId \<notin> set (participants sess) then ([], s)
          else (case find (\<lambda>i. i \<noteq> senderId) (participants sess) of
                  None \<Rightarrow> ([], s)
                | Some targetId \<Rightarrow>
                    if targetId = [] then ([], s)
                    else ([(To targetId, Webrtc ev sessionId payload)], s)))"

subsection \<open>Event handlers\<close>

text \<open>
  Each handler takes the id of the socket it is registered on. The payload records list
  the fields the clients send; a handler reads only those its parameter pattern names.
\<close>

definition on_profile_update :: "handle \<Rightarrow> profile \<Rightarrow> state \<Rightarrow> emit list \<times> state" where
  "on_profile_update h p s =
     (let normalizedEmail = toLowerCase (email p);
          s1 = s\<lparr>socket_data :=
                   (socket_data s)(h := (socket_data s h)\<lparr>profile := Some (p\<lparr>email := normalizedEmail\<rparr>)\<rparr>)\<rparr>;
          s2 = registerSocketForEmail h normalizedEmail s1;
          (rep, reps) = getReputation normalizedEmail (reputations s2);
          s3 = s2\<lparr>reputations := reps\<rparr>
      in ((if banned rep then [(To h, SystemBanned rep)] else []) @ [(To h, ProfileReputation rep)],
          s3))"

text \<open>
  \<^verbatim>\<open>match:request\<close>. For a mode that is an inherited key the handler passes its guard,
  the profile check and the ban check like for a queue; past them
  \<^verbatim>\<open>waitingQueues[mode].push\<close> is not a function and the call throws a TypeError, the
  result \<open>None\<close>.
\<close>

definition match_request ::
  "(nat \<Rightarrow> session_id) \<Rightarrow> nat \<Rightarrow> handle \<Rightarrow> string \<Rightarrow> state \<Rightarrow> (emit list \<times> state) option" where
  "match_request uuid now h k s =
     (if queue_key k = None \<and> \<not> inherited_key k then Some ([], s)
      else
        (case profile (socket_data s h) of
           None \<Rightarrow> Some ([(To h, SystemError ''Profile missing. Please log in again.'')], s)
         | Some p \<Rightarrow>
             (let (rep, reps) = getReputation (email p) (reputations s);
                  s1 = s\<lparr>reputations := reps\<rparr>
              in if banned rep then Some ([(To h, SystemBanned rep)], s1)
                 else
                   (case queue_key k of
                      None \<Rightarrow> None
                    | Some m \<Rightarrow>
                        (let s2 = removeFromQueues h s1;
                             s3 = s2\<lparr>socket_data := (socket_data s2)(h := (socket_data s2 h)\<lparr>mode := Some m\<rparr>)\<rparr>;
                             s4 = s3\<lparr>waitingQueues := (waitingQueues s3)(m := waitingQueues s3 m @ [h])\<rparr>
                         in case attemptPair uuid now m s4 of
                              None \<Rightarrow> None
                            | Some (out, s5) \<Rightarrow>
                                Some ((To h, MatchQueued m (length (waitingQueues s4 m))) # out, s5))))))"

record chat_payload =
  chat_sessionId :: session_id
  chat_body :: string
  chat_from :: string
  chat_timestamp :: "nat option"

definition chat_text_message :: "nat \<Rightarrow> handle \<Rightarrow> chat_payload \<Rightarrow> state \<Rightarrow> emit list \<times> state" where
  "chat_text_message now h payload s =
     (let sessionId = chat_sessionId payload; body = chat_body payload; from = chat_from payload in
      if sessionId = [] \<or> body = [] then ([], s)
      else (case map_of (sessions s) sessionId of
              None \<Rightarrow> ([], s)
            | Some sess \<Rightarrow>
                if h \<notin> set (participants sess) then ([], s)
                else (case find (\<lambda>i. i \<noteq> h) (participants sess) of
                        None \<Rightarrow> ([], s)
                      | Some targetId \<Rightarrow>
                          if targetId = [] then ([], s)
                          else ([(To targetId, ChatTextMessage sessionId body from now)], s))))"

definition chat_leave :: "handle \<Rightarrow> session_id \<Rightarrow> state \<Rightarrow> emit list \<times> state" where
  "chat_leave h sessionId s =
     (let (out, s1) =
            (if sessionId \<noteq> [] \<and> map_of (sessions s) sessionId \<noteq> None then endSession sessionId h s
             else (case findSessionBySocket h s of
                     Some (found, sess) \<Rightarrow> endSession found h s
                   | None \<Rightarrow> ([], s)))
      in (out, removeFromQueues h s1))"

record reaction_payload =
  reaction_target :: string
  reaction_type :: string
  reaction_sessionId :: session_id

definition profile_reaction :: "handle \<Rightarrow> reaction_payload \<Rightarrow> state \<Rightarrow> emit list \<times> state" where
  "profile_reaction h payload s =
     (let target = reaction_target payload; type = reaction_type payload in
      if target = [] \<or> type = [] then ([], s)
      else (let normalized = toLowerCase target;
                (rep, reps) = applyReaction normalized type (reputations s);
                s1 = s\<lparr>reputations := reps\<rparr>;
                sockets = (case emailToSockets s1 normalized of None \<Rightarrow> [] | Some hs \<Rightarrow> hs)
            in ((Everyone, ReputationBroadcast normalized rep)
                # (if banned rep then map (\<lambda>socketId. (To socketId, SystemBanned rep)) sockets else []),
                s1)))"

definition webrtc_offer :: "handle \<Rightarrow> session_id \<Rightarrow> blob \<Rightarrow> state \<Rightarrow> emit list \<times> state" where
  "webrtc_offer h sessionId description s =
     (if sessionId = [] \<or> falsy description then ([], s)
      else relayToSessionPeer sessionId h Offer description s)"

definition webrtc_answer :: "handle \<Rightarrow> session_id \<Rightarrow> blob \<Rightarrow> state \<Rightarrow> emit list \<times> state" where
  "webrtc_answer h sessionId description s =
     (if sessionId = [] \<or> falsy description then ([], s)
      else relayToSessionPeer sessionId h Answer description s)"

definition webrtc_ice_candidate :: "handle \<Rightarrow> session_id \<Rightarrow> blob \<Rightarrow> state \<Rightarrow> emit list \<times> state" where
  "webrtc_ice_candidate h sessionId candidate s =
     (if sessionId = [] \<or> candidate = Undefined then ([], s)
      else relayToSessionPeer sessionId h IceCandidate candidate s)"

definition disconnect :: "handle \<Rightarrow> state \<Rightarrow> emit list \<times> state" where
  "disconnect h s =
     (let s1 = removeFromQueues h s;
          (out, s2) = (case findSessionBySocket h s1 of
                         Some (sessionId, sess) \<Rightarrow> endSession sessionId h s1
                       | None \<Rightarrow> ([], s1))
      in (out, unregisterSocket h s2))"

text \<open>\<^verbatim>\<open>GET /reputation/:email\<close>: the JSON body and the state after the request.\<close>

definition get_reputation_endpoint :: "email \<Rightarrow> state \<Rightarrow> reputation \<times> state" where
  "get_reputation_endpoint e s =
     (let (rep, reps) = getReputation (toLowerCase e) (reputations s)
      in (rep, s\<lparr>reputations := reps\<rparr>))"

subsection \<open>The transport's dispatch\<close>

text \<open>
  The events the server receives. The transport adds a socket to
  \<^verbatim>\<open>io.sockets.sockets\<close> before the connection callback runs, delivers a client's events
  only while its socket is connected, and removes the socket before it fires
  \<^verbatim>\<open>disconnect\<close>. Each event comes with the reading of \<^verbatim>\<open>Date.now()\<close> at its handling.
  Socket ids are unique, so a \<open>Connect\<close> for an id already connected does nothing; a new
  connection starts with \<^verbatim>\<open>socket.data.profile\<close> and \<^verbatim>\<open>socket.data.mode\<close> null.
  \<open>GetReputation\<close> is the HTTP request \<^verbatim>\<open>GET /reputation/:email\<close>. The result
  \<open>None\<close> of a step or a run is the uncaught exception that ends the process.
\<close>

datatype event =
    Connect handle
  | ProfileUpdate handle profile
  | MatchRequest handle string
  | ChatText handle chat_payload
  | ChatLeave handle session_id
  | Reaction handle reaction_payload
  | WebrtcOffer handle session_id blob
  | WebrtcAnswer handle session_id blob
  | WebrtcIce handle session_id blob
  | Disconnect handle
  | GetReputation email

fun sender :: "event \<Rightarrow> handle option" where
  "sender (Connect h) = None"
| "sender (ProfileUpdate h p) = Some h"
| "sender (MatchRequest h k) = Some h"
| "sender (ChatText h payload) = Some h"
| "sender (ChatLeave h sessionId) = Some h"
| "sender (Reaction h payload) = Some h"
| "sender (WebrtcOffer h sessionId d) = Some h"
| "sender (WebrtcAnswer h sessionId d) = Some h"
| "sender (WebrtcIce h sessionId c) = Some h"
| "sender (Disconnect h) = Some h"
| "sender (GetReputation e) = None"

fun handle_event :: "(nat \<Rightarrow> session_id) \<Rightarrow> nat \<Rightarrow> event \<Rightarrow> state \<Rightarrow> (emit list \<times> state) option" where
  "handle_event uuid now (Connect h) s =
     Some ([], if h \<in> connected s then s
               else s\<lparr>connected := insert h (connected s),
                      socket_data := (socket_data s)(h := \<lparr>profile = None, mode = None\<rparr>)\<rparr>)"
| "handle_event uuid now (ProfileUpdate h p) s = Some (on_profile_update h p s)"
| "handle_event uuid now (MatchRequest h k) s = match_request uuid now h k s"
| "handle_event uuid now (ChatText h payload) s = Some (chat_text_message now h payload s)"
| "handle_event uuid now (ChatLeave h sessionId) s = Some (chat_leave h sessionId s)"
| "handle_event uuid now (Reaction h payload) s = Some (profile_reaction h payload s)"
| "handle_event uuid now (WebrtcOffer h sessionId d) s = Some (webrtc_offer h sessionId d s)"
| "handle_event uuid now (WebrtcAnswer h sessionId d) s = Some (webrtc_answer h sessionId d s)"
| "handle_event uuid now (WebrtcIce h sessionId c) s = Some (webrtc_ice_candidate h sessionId c s)"
| "handle_event uuid now (Disconnect h) s = Some (disconnect h (s\<lparr>connected := connected s - {h}\<rparr>))"
| "handle_event uuid now (GetReputation e) s = Some ([], snd (get_reputation_endpoint e s))"

definition step :: "(nat \<Rightarrow> session_id) \<Rightarrow> nat \<Rightarrow> event \<Rightarrow> state \<Rightarrow> (emit list \<times> state) option" where
  "step uuid now ev s =
     (case sender ev of
        Some h \<Rightarrow> if h \<in> connected s then handle_event uuid now ev s else Some ([], s)
      | None \<Rightarrow> handle_event uuid now ev s)"

fun run :: "(nat \<Rightarrow> session_id) \<Rightarrow> (nat \<times> event) list \<Rightarrow> state \<Rightarrow> (emit list \<times> state) option" where
  "run uuid [] s = Some ([], s)"
| "run uuid ((now, ev) # evs) s =
     (case step uuid now ev s of
        None \<Rightarrow> None
      | Some (out, s1) \<Rightarrow>
          (case run uuid evs s1 of
             None \<Rightarrow> None
           | Some (out', s2) \<Rightarrow> Some (out @ out', s2)))"

subsection \<open>Notions used to state the properties\<close>

text \<open>
  What \<^verbatim>\<open>applyReaction\<close> does to the record it obtained from the ledger, as a function
  of the record alone (shown equal to the code by \<open>applyReaction_eq\<close> below).
\<close>

definition react :: "string \<Rightarrow> reputation \<Rightarrow> reputation" where
  "react t r =
     (let p1 = (if t = ''like'' then r\<lparr>likes := likes r + 1\<rparr> else r);
          p2 = (if t = ''dislike'' then p1\<lparr>dislikes := dislikes p1 + 1\<rparr> else p1);
          p3 = (if t = ''report'' then p2\<lparr>reports := reports p2 + 1\<rparr> else p2)
      in if reports p3 \<ge> REPORT_THRESHOLD \<or> dislikes p3 \<ge> DISLIKE_THRESHOLD
         then p3\<lparr>banned := True\<rparr> else p3)"

text \<open>
  The sockets registered for an email, as \<^verbatim>\<open>emailToSockets.get(email)\<close> reads them
  (no entry: no socket).
\<close>

definition handlesFor :: "state \<Rightarrow> email \<Rightarrow> handle set" where
  "handlesFor s e = (case emailToSockets s e of None \<Rightarrow> {} | Some hs \<Rightarrow> set hs)"

text \<open>
  Socket \<open>h\<close> is a participant of no session stored under an id other than \<open>sid\<close>.
\<close>

definition in_no_other_session :: "handle \<Rightarrow> session_id \<Rightarrow> state \<Rightarrow> bool" where
  "in_no_other_session h sid s =
     (\<forall>(k, v)\<in>set (sessions s). h \<in> set (participants v) \<longrightarrow> k = sid)"

text \<open>The messages of an output that reach socket \<open>h\<close>, in the order sent.\<close>

definition delivered_to :: "handle \<Rightarrow> emit list \<Rightarrow> message list" where
  "delivered_to h out = map snd (filter (\<lambda>(r, msg). r = To h \<or> r = Everyone) out)"

text \<open>Arrival order cut into consecutive pairs: first with second, third with fourth.\<close>

fun pairs_of :: "'a list \<Rightarrow> ('a \<times> 'a) list" where
  "pairs_of (a # b # rest) = (a, b) # pairs_of rest"
| "pairs_of rest = []"

text \<open>A source of session ids for the scenarios: \<^verbatim>\<open>s\<close>, \<^verbatim>\<open>s#\<close>, \<^verbatim>\<open>s##\<close>, ...\<close>

definition demo_uuid :: "nat \<Rightarrow> session_id" where
  "demo_uuid n = CHR ''s'' # replicate n (CHR ''#'')"

text \<open>
  A state with one text session between \<^verbatim>\<open>h1\<close> and \<^verbatim>\<open>h2\<close>, whose id is the
  first one \<open>demo_uuid\<close> gives.
\<close>

definition chat_state :: state where
  "chat_state =
     initial_state\<lparr>sessions := [(''s'', \<lparr>sess_id = ''s'', sess_mode = Text,
                                        participants = [''h1'', ''h2''], startedAt = 5\<rparr>)],
                   connected := {''h1'', ''h2''},
                   uuid_calls := 1\<rparr>"

text \<open>Scenario data: one connected socket and two profiles it registers in turn.\<close>

definition one_socket :: state where
  "one_socket = initial_state\<lparr>connected := {''h1''}\<rparr>"

definition ann :: profile where
  "ann = \<lparr>name = ''Ann'', email = ''A@wisc.edu'', interests = [''chess'']\<rparr>"

definition zed :: profile where
  "zed = \<lparr>name = ''Zed'', email = ''z@wisc.edu'', interests = []\<rparr>"

definition two_reports :: state where
  "two_reports =
     (snd (on_profile_update ''h1'' zed (snd (on_profile_update ''h1'' ann one_socket))))
       \<lparr>reputations := [''a@wisc.edu'' \<mapsto> \<lparr>likes = 0, dislikes = 0, reports = 2, banned = False\<rparr>]\<rparr>"

text \<open>
  Scenario: \<^verbatim>\<open>h1\<close> (email \<^verbatim>\<open>a@wisc.edu\<close>) queues for text while its record is clean,
  then a third socket reports that email three times.
\<close>

definition report_a :: reaction_payload where
  "report_a = \<lparr>reaction_target = ''a@wisc.edu'', reaction_type = ''report'', reaction_sessionId = []\<rparr>"

definition ban_while_queued :: "(nat \<times> event) list" where
  "ban_while_queued =
     [(1, Connect ''h1''), (2, Connect ''h2''), (3, Connect ''h3''),
      (4, ProfileUpdate ''h1'' ann), (5, ProfileUpdate ''h2'' zed),
      (6, MatchRequest ''h1'' ''text''),
      (7, Reaction ''h3'' report_a), (8, Reaction ''h3'' report_a), (9, Reaction ''h3'' report_a)]"

text \<open>A connected socket whose profile's email has three reports.\<close>

definition banned_socket :: state where
  "banned_socket =
     initial_state
       \<lparr>reputations := [''a@wisc.edu'' \<mapsto> \<lparr>likes = 0, dislikes = 0, reports = 3, banned = True\<rparr>],
        connected := {''h1''},
        socket_data := (\<lambda>_. \<lparr>profile = None, mode = None\<rparr>)
           (''h1'' := \<lparr>profile = Some (ann\<lparr>email := ''a@wisc.edu''\<rparr>), mode = None\<rparr>)\<rparr>"

text \<open>
  A socket whose \<^verbatim>\<open>match:request\<close> is queued: it is connected, has a profile, and the
  profile's email is not banned.
\<close>

definition eligible :: "state \<Rightarrow> handle \<Rightarrow> bool" where
  "eligible s h =
     (h \<in> connected s \<and>
      (case profile (socket_data s h) of
         None \<Rightarrow> False
       | Some p \<Rightarrow> \<not> banned (record_of (reputations s) (email p))))"

text \<open>
  \<^verbatim>\<open>uuidv4\<close> returns fresh ids: none of the ids still to come is the key of a stored
  session, and no two of them are equal.
\<close>

definition fresh_ids :: "(nat \<Rightarrow> session_id) \<Rightarrow> state \<Rightarrow> bool" where
  "fresh_ids uuid s =
     ((\<forall>n\<ge>uuid_calls s. uuid n \<notin> fst ` set (sessions s))
      \<and> (\<forall>i\<ge>uuid_calls s. \<forall>j>i. uuid i \<noteq> uuid j))"

text \<open>The state in which \<^verbatim>\<open>match:request\<close> calls \<^verbatim>\<open>attemptPair\<close>, for a socket it queues.\<close>

definition enqueued :: "handle \<Rightarrow> mode \<Rightarrow> email \<Rightarrow> state \<Rightarrow> state" where
  "enqueued h m e s =
     (let s1 = s\<lparr>reputations := snd (getReputation e (reputations s))\<rparr>;
          s2 = removeFromQueues h s1;
          s3 = s2\<lparr>socket_data := (socket_data s2)(h := (socket_data s2 h)\<lparr>mode := Some m\<rparr>)\<rparr>
      in s3\<lparr>waitingQueues := (waitingQueues s3)(m := waitingQueues s3 m @ [h])\<rparr>)"

text \<open>Four connected sockets, each with a profile, nobody banned, nothing queued.\<close>

definition four_sockets :: state where
  "four_sockets =
     initial_state
       \<lparr>connected := {''h1'', ''h2'', ''h3'', ''h4''},
        socket_data := (\<lambda>h. \<lparr>profile = Some \<lparr>name = h, email = h @ ''@wisc.edu'', interests = []\<rparr>,
                              mode = None\<rparr>)\<rparr>"

text \<open>
  Scenario: \<^verbatim>\<open>h1\<close> and \<^verbatim>\<open>h2\<close> are paired for video; \<^verbatim>\<open>h1\<close> then asks for a new
  match without leaving (the video page's "New match" button sends only
  \<^verbatim>\<open>match:request\<close>), and \<^verbatim>\<open>h3\<close> arrives.
\<close>

definition cat :: profile where
  "cat = \<lparr>name = ''Cat'', email = ''c@wisc.edu'', interests = []\<rparr>"

definition rematch :: "(nat \<times> event) list" where
  "rematch =
     [(1, Connect ''h1''), (2, Connect ''h2''), (3, Connect ''h3''),
      (4, ProfileUpdate ''h1'' ann), (5, ProfileUpdate ''h2'' zed), (6, ProfileUpdate ''h3'' cat),
      (7, MatchRequest ''h1'' ''video''), (8, MatchRequest ''h2'' ''video''),
      (9, MatchRequest ''h1'' ''video''), (10, MatchRequest ''h3'' ''video'')]"




text \<open>The teardown notices among the messages sent.\<close>

definition teardown_notices :: "emit list \<Rightarrow> emit list" where
  "teardown_notices out =
     filter (\<lambda>(r, msg). case msg of
                           SystemPartnerLeft sid \<Rightarrow> True
                         | SystemSessionEnded sid \<Rightarrow> True
                         | _ \<Rightarrow> False) out"

section \<open>Verification\<close>

subsection \<open>Reputation ledger\<close>

lemma record_of_getReputation [simp]:
  "record_of (snd (getReputation e reps)) e' = record_of reps e'"
  by (auto simp: record_of_def getReputation_def split: option.splits)

lemma ban_rule_zero [simp]: "ban_rule zero_reputation"
  by (simp add: ban_rule_def zero_reputation_def REPORT_THRESHOLD_def DISLIKE_THRESHOLD_def)

lemma record_of_empty [simp]: "record_of Map.empty e = zero_reputation"
  by (simp add: record_of_def getReputation_def)

lemma fst_getReputation: "fst (getReputation e reps) = record_of reps e"
  by (simp add: record_of_def)

lemma applyReaction_eq:
  "applyReaction e t reps =
     (react t (record_of reps e), if e = [] then reps else reps(e \<mapsto> react t (record_of reps e)))"
proof (cases "e = []")
  case True
  then show ?thesis
    by (simp add: applyReaction_def getReputation_def record_of_def react_def Let_def
             split del: if_split)
next
  case False
  then show ?thesis
    by (cases "reps e")
       (simp_all add: applyReaction_def getReputation_def record_of_def react_def Let_def
                 split del: if_split)
qed

lemma record_of_upd:
  "e \<noteq> [] \<Longrightarrow> record_of (reps(e \<mapsto> r)) e' = (if e' = e then r else record_of reps e')"
  by (simp add: record_of_def getReputation_def split: option.split)

lemma fst_applyReaction: "fst (applyReaction e t reps) = react t (record_of reps e)"
  by (simp add: applyReaction_eq)

lemma record_of_applyReaction:
  "record_of (snd (applyReaction e t reps)) e' =
     (if e' = e \<and> e \<noteq> [] then react t (record_of reps e) else record_of reps e')"
  by (simp add: applyReaction_eq record_of_upd)

lemma react_monotone:
  "likes r \<le> likes (react t r) \<and> dislikes r \<le> dislikes (react t r)
   \<and> reports r \<le> reports (react t r) \<and> (banned r \<longrightarrow> banned (react t r))"
  by (simp add: react_def Let_def)

lemma react_ban_rule: "ban_rule r \<Longrightarrow> ban_rule (react t r)"
  by (auto simp: react_def Let_def ban_rule_def)

lemma ban_rule_applyReaction_ledger:
  assumes "\<And>x. ban_rule (record_of reps x)"
  shows "ban_rule (record_of (snd (applyReaction e' t reps)) e)"
  using assms by (simp add: record_of_applyReaction react_ban_rule)

lemma ban_rule_applyReactions:
  "(\<And>x. ban_rule (record_of reps x)) \<Longrightarrow> ban_rule (record_of (applyReactions calls reps) e)"
proof (induction calls arbitrary: reps e)
  case Nil
  then show ?case by simp
next
  case (Cons c calls)
  obtain e' t where c: "c = (e', t)" by (cases c)
  have "ban_rule (record_of (snd (applyReaction e' t reps)) x)" for x
    using Cons.prems by (rule ban_rule_applyReaction_ledger)
  then have "ban_rule (record_of (applyReactions calls (snd (applyReaction e' t reps))) e)"
    by (rule Cons.IH)
  then show ?case using c by simp
qed

lemma applyReaction_ledger_monotone:
  "likes (record_of reps e) \<le> likes (record_of (snd (applyReaction e' t reps)) e)
   \<and> dislikes (record_of reps e) \<le> dislikes (record_of (snd (applyReaction e' t reps)) e)
   \<and> reports (record_of reps e) \<le> reports (record_of (snd (applyReaction e' t reps)) e)
   \<and> (banned (record_of reps e) \<longrightarrow> banned (record_of (snd (applyReaction e' t reps)) e))"
proof (cases "e = e' \<and> e' \<noteq> []")
  case True
  then have "record_of (snd (applyReaction e' t reps)) e = react t (record_of reps e)"
    by (simp add: record_of_applyReaction)
  then show ?thesis
    using react_monotone [of "record_of reps e" t] by simp
next
  case False
  then have "record_of (snd (applyReaction e' t reps)) e = record_of reps e"
    by (auto simp: record_of_applyReaction)
  then show ?thesis by simp
qed

text \<open>
  C9, as the claim states it: reading an unseen email leaves the ledger unchanged. It does
  not: \<^verbatim>\<open>getReputation\<close> stores the zero record it returns.
\<close>

theorem getReputation_read_creates_entry:
  "fst (getReputation ''a@wisc.edu'' Map.empty) = zero_reputation
   \<and> snd (getReputation ''a@wisc.edu'' Map.empty) \<noteq> Map.empty
   \<and> reputations (snd (get_reputation_endpoint ''a@wisc.edu'' initial_state)) ''a@wisc.edu''
       = Some zero_reputation
   \<and> reputations initial_state ''a@wisc.edu'' = None"
  by (simp add: getReputation_def get_reputation_endpoint_def initial_state_def toLowerCase_def
                lower_char_def)

text \<open>
  C9, amended. \<^verbatim>\<open>getReputation\<close> returns the zero record for an unseen email. For an
  unseen, non-empty email it stores that zero record in the ledger (get or create); for a
  known email or the empty one it leaves the ledger as it is. In each case the record that
  a reader sees for any email is the same before and after the read.
\<close>

theorem getReputation_get_or_create:
  "(reps e = None \<longrightarrow> fst (getReputation e reps) = zero_reputation)
   \<and> snd (getReputation e reps)
       = (if e \<noteq> [] \<and> reps e = None then reps(e \<mapsto> zero_reputation) else reps)
   \<and> record_of (snd (getReputation e reps)) e' = record_of reps e'"
  by (auto simp: getReputation_def record_of_def split: option.splits)

theorem getReputation_get_or_create_witness:
  "fst (getReputation ''a@wisc.edu'' Map.empty) = zero_reputation
   \<and> snd (getReputation ''a@wisc.edu'' Map.empty) = [''a@wisc.edu'' \<mapsto> zero_reputation]
   \<and> record_of (snd (getReputation ''a@wisc.edu'' Map.empty)) ''c@wisc.edu''
       = record_of Map.empty ''c@wisc.edu''"
  using getReputation_get_or_create [of Map.empty "''a@wisc.edu''" "''c@wisc.edu''"]
  by (simp add: record_of_def getReputation_def)

subsection \<open>Relay of chat messages and signalling\<close>


lemma chat_text_message_cases:
  assumes "chat_text_message now h payload s = (out, s')"
  shows "s' = s \<and>
         (out = [] \<or>
          (\<exists>sess target. map_of (sessions s) (chat_sessionId payload) = Some sess
             \<and> h \<in> set (participants sess)
             \<and> find (\<lambda>i. i \<noteq> h) (participants sess) = Some target
             \<and> out = [(To target, ChatTextMessage (chat_sessionId payload) (chat_body payload)
                                    (chat_from payload) now)]))"
proof (cases "chat_sessionId payload = [] \<or> chat_body payload = []")
  case True
  with assms show ?thesis by (auto simp: chat_text_message_def Let_def)
next
  case nonempty: False
  show ?thesis
  proof (cases "map_of (sessions s) (chat_sessionId payload)")
    case None
    with assms nonempty show ?thesis by (auto simp: chat_text_message_def Let_def)
  next
    case (Some sess)
    show ?thesis
    proof (cases "h \<in> set (participants sess)")
      case False
      with assms nonempty Some show ?thesis by (auto simp: chat_text_message_def Let_def)
    next
      case member: True
      show ?thesis
      proof (cases "find (\<lambda>i. i \<noteq> h) (participants sess)")
        case None
        with assms nonempty Some member show ?thesis
          by (auto simp: chat_text_message_def Let_def)
      next
        case (Some target)
        with assms nonempty \<open>map_of (sessions s) (chat_sessionId payload) = Some sess\<close> member
        show ?thesis
          by (cases "target = []") (auto simp: chat_text_message_def Let_def)
      qed
    qed
  qed
qed




text \<open>
  C6, as the claim states it: a reaction whose session id resolves to no session, sent by a
  socket that is in no session, is dropped. It is not: the ledger is changed and the
  updated record is broadcast.
\<close>

theorem reaction_ignores_session:
  "map_of (sessions initial_state) ''no-such-session'' = None
   \<and> fst (profile_reaction ''h9''
       \<lparr>reaction_target = ''b@wisc.edu'', reaction_type = ''report'', reaction_sessionId = ''no-such-session''\<rparr>
       initial_state)
     = [(Everyone, ReputationBroadcast ''b@wisc.edu'' \<lparr>likes = 0, dislikes = 0, reports = 1, banned = False\<rparr>)]
   \<and> reputations (snd (profile_reaction ''h9''
       \<lparr>reaction_target = ''b@wisc.edu'', reaction_type = ''report'', reaction_sessionId = ''no-such-session''\<rparr>
       initial_state)) ''b@wisc.edu''
     = Some \<lparr>likes = 0, dislikes = 0, reports = 1, banned = False\<rparr>
   \<and> reputations initial_state ''b@wisc.edu'' = None"
  by (simp add: profile_reaction_def initial_state_def applyReaction_eq react_def record_of_def
        getReputation_def zero_reputation_def toLowerCase_def lower_char_def Let_def
        REPORT_THRESHOLD_def DISLIKE_THRESHOLD_def)

lemma relayToSessionPeer_rejects:
  "map_of (sessions s) sid = None \<or> (\<exists>sess. map_of (sessions s) sid = Some sess \<and> h \<notin> set (participants sess))
   \<Longrightarrow> relayToSessionPeer sid h ev payload s = ([], s)"
  by (auto simp: relayToSessionPeer_def)

lemma chat_text_message_rejects:
  "map_of (sessions s) (chat_sessionId payload) = None
     \<or> (\<exists>sess. map_of (sessions s) (chat_sessionId payload) = Some sess \<and> h \<notin> set (participants sess))
   \<Longrightarrow> chat_text_message now h payload s = ([], s)"
  by (auto simp: chat_text_message_def Let_def)

lemma webrtc_rejects:
  assumes "map_of (sessions s) sid = None \<or> (\<exists>sess. map_of (sessions s) sid = Some sess \<and> h \<notin> set (participants sess))"
  shows "webrtc_offer h sid d s = ([], s)" "webrtc_answer h sid d s = ([], s)"
        "webrtc_ice_candidate h sid d s = ([], s)"
  using relayToSessionPeer_rejects [OF assms]
  by (simp_all add: webrtc_offer_def webrtc_answer_def webrtc_ice_candidate_def)

text \<open>
  C6, amended. The chat, offer, answer and ICE-candidate relays emit nothing and change
  nothing whenever the payload's session id resolves to no session or the sender is not
  one of its participants. The reaction handler makes no such check: it is dropped only
  when its target or its type is missing; otherwise, whatever the sender and the session
  id in the payload, it applies the reaction to the target's record and broadcasts the
  updated record.
\<close>

theorem relays_check_session_reaction_does_not:
  "((map_of (sessions s) sid = None
       \<or> (\<exists>sess. map_of (sessions s) sid = Some sess \<and> h \<notin> set (participants sess)))
     \<longrightarrow> chat_text_message now h \<lparr>chat_sessionId = sid, chat_body = body, chat_from = from, chat_timestamp = ts\<rparr> s = ([], s)
         \<and> webrtc_offer h sid d s = ([], s)
         \<and> webrtc_answer h sid d s = ([], s)
         \<and> webrtc_ice_candidate h sid d s = ([], s))
   \<and> (reaction_target p = [] \<or> reaction_type p = [] \<longrightarrow> profile_reaction h p s = ([], s))
   \<and> (reaction_target p \<noteq> [] \<and> reaction_type p \<noteq> [] \<longrightarrow>
         profile_reaction h p s = profile_reaction h' (p\<lparr>reaction_sessionId := sid'\<rparr>) s
         \<and> hd (fst (profile_reaction h p s))
             = (Everyone, ReputationBroadcast (toLowerCase (reaction_target p))
                            (react (reaction_type p) (record_of (reputations s) (toLowerCase (reaction_target p)))))
         \<and> reputations (snd (profile_reaction h p s))
             = snd (applyReaction (toLowerCase (reaction_target p)) (reaction_type p) (reputations s)))"
proof -
  have a: "chat_text_message now h \<lparr>chat_sessionId = sid, chat_body = body, chat_from = from, chat_timestamp = ts\<rparr> s = ([], s)
         \<and> webrtc_offer h sid d s = ([], s)
         \<and> webrtc_answer h sid d s = ([], s)
         \<and> webrtc_ice_candidate h sid d s = ([], s)"
    if "map_of (sessions s) sid = None
       \<or> (\<exists>sess. map_of (sessions s) sid = Some sess \<and> h \<notin> set (participants sess))"
    using that webrtc_rejects [OF that] chat_text_message_rejects [of s "\<lparr>chat_sessionId = sid, chat_body = body, chat_from = from, chat_timestamp = ts\<rparr>" h now]
    by simp
  have b: "profile_reaction h p s = ([], s)" if "reaction_target p = [] \<or> reaction_type p = []"
    using that by (auto simp: profile_reaction_def Let_def)
  have c: "profile_reaction h p s = profile_reaction h' (p\<lparr>reaction_sessionId := sid'\<rparr>) s"
    by (simp add: profile_reaction_def)
  have d: "hd (fst (profile_reaction h p s))
             = (Everyone, ReputationBroadcast (toLowerCase (reaction_target p))
                            (react (reaction_type p) (record_of (reputations s) (toLowerCase (reaction_target p)))))
         \<and> reputations (snd (profile_reaction h p s))
             = snd (applyReaction (toLowerCase (reaction_target p)) (reaction_type p) (reputations s))"
    if "reaction_target p \<noteq> [] \<and> reaction_type p \<noteq> []"
    using that by (simp add: profile_reaction_def Let_def applyReaction_eq)
  show ?thesis using a b c d by blast
qed

theorem relays_check_session_reaction_does_not_witness:
  "chat_text_message 7 ''h3''
     \<lparr>chat_sessionId = ''s'', chat_body = ''hi'', chat_from = ''c@wisc.edu'', chat_timestamp = None\<rparr>
     chat_state = ([], chat_state)
   \<and> webrtc_offer ''h3'' ''s'' (Blob ''sdp'') chat_state = ([], chat_state)
   \<and> webrtc_answer ''h3'' ''s'' (Blob ''sdp'') chat_state = ([], chat_state)
   \<and> webrtc_ice_candidate ''h3'' ''s'' (Blob ''sdp'') chat_state = ([], chat_state)
   \<and> profile_reaction ''h3''
       \<lparr>reaction_target = [], reaction_type = ''like'', reaction_sessionId = ''s''\<rparr> chat_state
      = ([], chat_state)
   \<and> reputations (snd (profile_reaction ''h3''
       \<lparr>reaction_target = ''B@wisc.edu'', reaction_type = ''like'', reaction_sessionId = ''s''\<rparr> chat_state))
      = snd (applyReaction ''b@wisc.edu'' ''like'' (reputations chat_state))"
proof -
  have stranger: "map_of (sessions chat_state) ''s'' = None
      \<or> (\<exists>sess. map_of (sessions chat_state) ''s'' = Some sess \<and> ''h3'' \<notin> set (participants sess))"
    by (simp add: chat_state_def initial_state_def)
  have lower: "toLowerCase ''B@wisc.edu'' = ''b@wisc.edu''"
    by code_simp
  show ?thesis
    using stranger lower
      relays_check_session_reaction_does_not
        [of chat_state "''s''" "''h3''" 7 "''hi''" "''c@wisc.edu''" None "Blob ''sdp''"
            "\<lparr>reaction_target = [], reaction_type = ''like'', reaction_sessionId = ''s''\<rparr>"]
      relays_check_session_reaction_does_not
        [of chat_state "''s''" "''h3''" 7 "''hi''" "''c@wisc.edu''" None "Blob ''sdp''"
            "\<lparr>reaction_target = ''B@wisc.edu'', reaction_type = ''like'', reaction_sessionId = ''s''\<rparr>"]
    by simp
qed

subsection \<open>The pairing loop\<close>

lemma attemptPair_short:
  "length (waitingQueues s m) < 2 \<Longrightarrow> attemptPair uuid now m s = Some ([], s)"
  by (cases "waitingQueues s m"; cases "tl (waitingQueues s m)")
     (simp_all add: attemptPair.simps)

lemma attemptPair_stale:
  assumes "waitingQueues s m = first # second # rest"
      and "first \<notin> connected s \<or> second \<notin> connected s"
  shows "attemptPair uuid now m s
           = attemptPair uuid now m (s\<lparr>waitingQueues := (waitingQueues s)(m := rest)\<rparr>)"
  using assms by (subst attemptPair.simps) (auto simp: Let_def)

lemma attemptPair_live:
  assumes "waitingQueues s m = first # second # rest"
      and "first \<in> connected s" and "second \<in> connected s"
  shows "attemptPair uuid now m s =
           (case sanitizeProfile (profile (socket_data s second)) of
              None \<Rightarrow> None
            | Some profileA \<Rightarrow>
                (case sanitizeProfile (profile (socket_data s first)) of
                   None \<Rightarrow> None
                 | Some profileB \<Rightarrow>
                     (case attemptPair uuid now m
                             (s\<lparr>waitingQueues := (waitingQueues s)(m := rest),
                                sessions := AList.update (uuid (uuid_calls s))
                                   \<lparr>sess_id = uuid (uuid_calls s), sess_mode = m,
                                    participants = [first, second], startedAt = now\<rparr> (sessions s),
                                uuid_calls := Suc (uuid_calls s)\<rparr>) of
                        None \<Rightarrow> None
                      | Some (out, s3) \<Rightarrow>
                          Some ((To first, MatchPaired (uuid (uuid_calls s)) m profileA True)
                                # (To second, MatchPaired (uuid (uuid_calls s)) m profileB False)
                                # out, s3))))"
  using assms by (subst attemptPair.simps) (simp add: Let_def split: option.split)

lemma attemptPair_result_induct [consumes 1, case_names short stale live]:
  assumes run: "attemptPair uuid now m s = Some (out, s')"
      and short: "\<And>s. length (waitingQueues s m) < 2 \<Longrightarrow> P s [] s"
      and stale: "\<And>s first second rest out s'.
             waitingQueues s m = first # second # rest \<Longrightarrow>
             first \<notin> connected s \<or> second \<notin> connected s \<Longrightarrow>
             P (s\<lparr>waitingQueues := (waitingQueues s)(m := rest)\<rparr>) out s' \<Longrightarrow> P s out s'"
      and live: "\<And>s first second rest profileA profileB out s'.
             waitingQueues s m = first # second # rest \<Longrightarrow>
             first \<in> connected s \<Longrightarrow> second \<in> connected s \<Longrightarrow>
             sanitizeProfile (profile (socket_data s second)) = Some profileA \<Longrightarrow>
             sanitizeProfile (profile (socket_data s first)) = Some profileB \<Longrightarrow>
             P (s\<lparr>waitingQueues := (waitingQueues s)(m := rest),
                  sessions := AList.update (uuid (uuid_calls s))
                     \<lparr>sess_id = uuid (uuid_calls s), sess_mode = m,
                      participants = [first, second], startedAt = now\<rparr> (sessions s),
                  uuid_calls := Suc (uuid_calls s)\<rparr>) out s' \<Longrightarrow>
             P s ((To first, MatchPaired (uuid (uuid_calls s)) m profileA True)
                  # (To second, MatchPaired (uuid (uuid_calls s)) m profileB False) # out) s'"
  shows "P s out s'"
  using run
proof (induction "length (waitingQueues s m)" arbitrary: s out rule: less_induct)
  case less
  show ?case
  proof (cases "length (waitingQueues s m) < 2")
    case True
    with less.prems show ?thesis by (simp add: attemptPair_short short)
  next
    case False
    then obtain first second rest where q: "waitingQueues s m = first # second # rest"
      by (cases "waitingQueues s m"; cases "tl (waitingQueues s m)") auto
    show ?thesis
    proof (cases "first \<in> connected s \<and> second \<in> connected s")
      case False
      then have st: "first \<notin> connected s \<or> second \<notin> connected s" by simp
      let ?s1 = "s\<lparr>waitingQueues := (waitingQueues s)(m := rest)\<rparr>"
      from less.prems have "attemptPair uuid now m ?s1 = Some (out, s')"
        by (simp add: attemptPair_stale [OF q st])
      moreover have "length (waitingQueues ?s1 m) < length (waitingQueues s m)"
        using q by simp
      ultimately have "P ?s1 out s'" by (rule less.hyps [rotated])
      with q st show ?thesis by (rule stale)
    next
      case True
      then have c: "first \<in> connected s" "second \<in> connected s" by simp_all
      let ?s2 = "s\<lparr>waitingQueues := (waitingQueues s)(m := rest),
                    sessions := AList.update (uuid (uuid_calls s))
                       \<lparr>sess_id = uuid (uuid_calls s), sess_mode = m,
                        participants = [first, second], startedAt = now\<rparr> (sessions s),
                    uuid_calls := Suc (uuid_calls s)\<rparr>"
      from less.prems obtain profileA profileB out2 where
        pa: "sanitizeProfile (profile (socket_data s second)) = Some profileA"
        and pb: "sanitizeProfile (profile (socket_data s first)) = Some profileB"
        and rec: "attemptPair uuid now m ?s2 = Some (out2, s')"
        and out: "out = (To first, MatchPaired (uuid (uuid_calls s)) m profileA True)
                  # (To second, MatchPaired (uuid (uuid_calls s)) m profileB False) # out2"
        by (auto simp: attemptPair_live [OF q c] split: option.splits)
      have "length (waitingQueues ?s2 m) < length (waitingQueues s m)"
        using q by simp
      with rec have "P ?s2 out2 s'" by (rule less.hyps [rotated])
      with q c pa pb show ?thesis unfolding out by (rule live)
    qed
  qed
qed

lemma attemptPair_frame:
  assumes "attemptPair uuid now m s = Some (out, s')"
  shows "emailToSockets s' = emailToSockets s \<and> connected s' = connected s
         \<and> socket_data s' = socket_data s \<and> reputations s' = reputations s
         \<and> uuid_calls s \<le> uuid_calls s'"
  using assms by (induction rule: attemptPair_result_induct) simp_all

subsection \<open>What each handler leaves unchanged\<close>

lemma removeFromQueues_fields [simp]:
  "reputations (removeFromQueues h s) = reputations s"
  "sessions (removeFromQueues h s) = sessions s"
  "emailToSockets (removeFromQueues h s) = emailToSockets s"
  "connected (removeFromQueues h s) = connected s"
  "socket_data (removeFromQueues h s) = socket_data s"
  "uuid_calls (removeFromQueues h s) = uuid_calls s"
  "waitingQueues (removeFromQueues h s) m = filter (\<lambda>entry. entry \<noteq> h) (waitingQueues s m)"
  by (simp_all add: removeFromQueues_def)

lemma unregisterSocket_fields [simp]:
  "reputations (unregisterSocket h s) = reputations s"
  "sessions (unregisterSocket h s) = sessions s"
  "waitingQueues (unregisterSocket h s) = waitingQueues s"
  "connected (unregisterSocket h s) = connected s"
  "socket_data (unregisterSocket h s) = socket_data s"
  "uuid_calls (unregisterSocket h s) = uuid_calls s"
  by (simp_all add: unregisterSocket_def)

lemma registerSocketForEmail_fields [simp]:
  "reputations (registerSocketForEmail h e s) = reputations s"
  "sessions (registerSocketForEmail h e s) = sessions s"
  "waitingQueues (registerSocketForEmail h e s) = waitingQueues s"
  "connected (registerSocketForEmail h e s) = connected s"
  "socket_data (registerSocketForEmail h e s) = socket_data s"
  "uuid_calls (registerSocketForEmail h e s) = uuid_calls s"
  by (simp_all add: registerSocketForEmail_def Let_def)

lemma findSessionBySocket_cong:
  "sessions s' = sessions s \<Longrightarrow> findSessionBySocket h s' = findSessionBySocket h s"
  by (simp add: findSessionBySocket_def)

lemma endSession_fields [simp]:
  "reputations (snd (endSession sid l s)) = reputations s"
  "waitingQueues (snd (endSession sid l s)) = waitingQueues s"
  "emailToSockets (snd (endSession sid l s)) = emailToSockets s"
  "connected (snd (endSession sid l s)) = connected s"
  "socket_data (snd (endSession sid l s)) = socket_data s"
  "uuid_calls (snd (endSession sid l s)) = uuid_calls s"
  by (simp_all add: endSession_def split: option.split)

lemma endSession_sessions:
  "sessions (snd (endSession sid l s)) = AList.delete sid (sessions s)"
proof (cases "map_of (sessions s) sid")
  case None
  then have "sid \<notin> fst ` set (sessions s)" by (simp add: map_of_eq_None_iff)
  with None show ?thesis by (simp add: endSession_def)
next
  case (Some sess)
  then show ?thesis by (simp add: endSession_def)
qed

lemma relayToSessionPeer_state [simp]: "snd (relayToSessionPeer sid h ev payload s) = s"
  by (simp add: relayToSessionPeer_def split: option.split)

lemma webrtc_state [simp]:
  "snd (webrtc_offer h sid d s) = s"
  "snd (webrtc_answer h sid d s) = s"
  "snd (webrtc_ice_candidate h sid d s) = s"
  by (simp_all add: webrtc_offer_def webrtc_answer_def webrtc_ice_candidate_def)

lemma chat_text_message_state [simp]: "snd (chat_text_message now h payload s) = s"
  using chat_text_message_cases [of now h payload s "fst (chat_text_message now h payload s)"
                                    "snd (chat_text_message now h payload s)"]
  by simp

lemma chat_leave_fields [simp]:
  "reputations (snd (chat_leave h sid s)) = reputations s"
  "emailToSockets (snd (chat_leave h sid s)) = emailToSockets s"
  "connected (snd (chat_leave h sid s)) = connected s"
  "socket_data (snd (chat_leave h sid s)) = socket_data s"
  "uuid_calls (snd (chat_leave h sid s)) = uuid_calls s"
  by (simp_all add: chat_leave_def Let_def case_prod_beta split: option.split)

lemma chat_leave_sessions:
  "sessions (snd (chat_leave h sid s)) = sessions s
   \<or> (\<exists>k. sessions (snd (chat_leave h sid s)) = AList.delete k (sessions s))"
  by (auto simp: chat_leave_def Let_def case_prod_beta endSession_sessions split: option.split)

lemma disconnect_fields [simp]:
  "reputations (snd (disconnect h s)) = reputations s"
  "connected (snd (disconnect h s)) = connected s"
  "socket_data (snd (disconnect h s)) = socket_data s"
  "uuid_calls (snd (disconnect h s)) = uuid_calls s"
  by (simp_all add: disconnect_def Let_def case_prod_beta split: option.split)

lemma disconnect_sessions:
  "sessions (snd (disconnect h s)) = sessions s
   \<or> (\<exists>k. sessions (snd (disconnect h s)) = AList.delete k (sessions s))"
  by (auto simp: disconnect_def Let_def case_prod_beta endSession_sessions split: option.split)

lemma disconnect_emailToSockets:
  "emailToSockets (snd (disconnect h s)) = emailToSockets (unregisterSocket h s)"
  by (simp add: disconnect_def Let_def case_prod_beta unregisterSocket_def split: option.split)

lemma profile_update_fields [simp]:
  "sessions (snd (on_profile_update h p s)) = sessions s"
  "waitingQueues (snd (on_profile_update h p s)) = waitingQueues s"
  "connected (snd (on_profile_update h p s)) = connected s"
  "uuid_calls (snd (on_profile_update h p s)) = uuid_calls s"
  by (simp_all add: on_profile_update_def Let_def case_prod_beta)

lemma profile_update_emailToSockets:
  "emailToSockets (snd (on_profile_update h p s))
     = emailToSockets (registerSocketForEmail h (toLowerCase (email p)) s)"
  by (simp add: on_profile_update_def Let_def case_prod_beta registerSocketForEmail_def)

lemma profile_reaction_fields [simp]:
  "sessions (snd (profile_reaction h p s)) = sessions s"
  "waitingQueues (snd (profile_reaction h p s)) = waitingQueues s"
  "emailToSockets (snd (profile_reaction h p s)) = emailToSockets s"
  "connected (snd (profile_reaction h p s)) = connected s"
  "socket_data (snd (profile_reaction h p s)) = socket_data s"
  "uuid_calls (snd (profile_reaction h p s)) = uuid_calls s"
  by (simp_all add: profile_reaction_def Let_def case_prod_beta)

lemma get_reputation_endpoint_fields [simp]:
  "sessions (snd (get_reputation_endpoint e s)) = sessions s"
  "waitingQueues (snd (get_reputation_endpoint e s)) = waitingQueues s"
  "emailToSockets (snd (get_reputation_endpoint e s)) = emailToSockets s"
  "connected (snd (get_reputation_endpoint e s)) = connected s"
  "socket_data (snd (get_reputation_endpoint e s)) = socket_data s"
  "uuid_calls (snd (get_reputation_endpoint e s)) = uuid_calls s"
  by (simp_all add: get_reputation_endpoint_def case_prod_beta)

lemma match_request_no_queue:
  assumes nq: "queue_key k = None" and run: "match_request uuid now h k s = Some (out, s')"
  shows "s' = s \<or> (\<exists>e. s' = s\<lparr>reputations := snd (getReputation e (reputations s))\<rparr>)"
proof (cases "inherited_key k")
  case False
  with nq run show ?thesis by (simp add: match_request_def)
next
  case True
  show ?thesis
  proof (cases "profile (socket_data s h)")
    case None
    with nq True run show ?thesis by (simp add: match_request_def)
  next
    case (Some p)
    show ?thesis
    proof (cases "banned (fst (getReputation (email p) (reputations s)))")
      case True
      with nq \<open>inherited_key k\<close> Some run show ?thesis
        by (auto simp: match_request_def Let_def case_prod_beta)
    next
      case False
      with nq \<open>inherited_key k\<close> Some run show ?thesis
        by (simp add: match_request_def Let_def case_prod_beta)
    qed
  qed
qed

lemma match_request_frame:
  assumes "match_request uuid now h k s = Some (out, s')"
  shows "emailToSockets s' = emailToSockets s \<and> connected s' = connected s
         \<and> uuid_calls s \<le> uuid_calls s'"
proof (cases "queue_key k")
  case None
  from match_request_no_queue [OF None assms] show ?thesis by auto
next
  case (Some m)
  show ?thesis
  proof (cases "profile (socket_data s h)")
    case None
    with assms Some show ?thesis by (simp add: match_request_def)
  next
    case (Some p)
    show ?thesis
    proof (cases "banned (fst (getReputation (email p) (reputations s)))")
      case True
      with assms \<open>queue_key k = Some m\<close> Some show ?thesis
        by (auto simp: match_request_def Let_def case_prod_beta)
    next
      case False
      let ?s4 = "(removeFromQueues h (s\<lparr>reputations := snd (getReputation (email p) (reputations s))\<rparr>))
                   \<lparr>socket_data := (socket_data s)(h := (socket_data s h)\<lparr>mode := Some m\<rparr>),
                    waitingQueues := (\<lambda>x. filter (\<lambda>entry. entry \<noteq> h) (waitingQueues s x))
                       (m := filter (\<lambda>entry. entry \<noteq> h) (waitingQueues s m) @ [h])\<rparr>"
      from assms \<open>queue_key k = Some m\<close> Some False
      obtain out2 where "attemptPair uuid now m ?s4 = Some (out2, s')"
        by (auto simp: match_request_def Let_def case_prod_beta removeFromQueues_def
                 split: option.splits)
      from attemptPair_frame [OF this] show ?thesis by simp
    qed
  qed
qed

subsection \<open>Identity registry\<close>

lemma lower_char_idem: "lower_char (lower_char c) = lower_char c"
  by (simp add: lower_char_def Let_def)

lemma toLowerCase_idem [simp]: "toLowerCase (toLowerCase e) = toLowerCase e"
  by (simp add: toLowerCase_def lower_char_idem)

lemma toLowerCase_Nil_iff [simp]: "toLowerCase e = [] \<longleftrightarrow> e = []"
  by (simp add: toLowerCase_def)

lemma handlesFor_cong:
  "emailToSockets s' = emailToSockets s \<Longrightarrow> handlesFor s' e = handlesFor s e"
  by (simp add: handlesFor_def)

lemma handlesFor_register:
  "handlesFor (registerSocketForEmail h e s) e' =
     (if e \<noteq> [] \<and> e' = toLowerCase e then insert h (handlesFor s e') else handlesFor s e')"
  by (auto simp: handlesFor_def registerSocketForEmail_def Let_def set_add_def split: option.splits)

lemma removeAll_Nil_member: "removeAll h xs = [] \<Longrightarrow> x \<in> set xs \<Longrightarrow> x = h"
  by (induction xs) (auto split: if_splits)

lemma handlesFor_unregister:
  "handlesFor (unregisterSocket h s) e = handlesFor s e - {h}"
  by (auto simp: handlesFor_def unregisterSocket_def Let_def split: option.splits
           dest: removeAll_Nil_member)

lemma handlesFor_profile_update:
  "handlesFor (snd (on_profile_update h p s)) e =
     (if email p \<noteq> [] \<and> e = toLowerCase (email p) then insert h (handlesFor s e) else handlesFor s e)"
  using handlesFor_register [of h "toLowerCase (email p)" s e]
  by (simp add: handlesFor_def profile_update_emailToSockets)

lemma handlesFor_disconnect:
  "handlesFor (snd (disconnect h s)) e = handlesFor s e - {h}"
  using handlesFor_unregister [of h s e]
  by (simp add: handlesFor_def disconnect_emailToSockets)

lemma handlesFor_step:
  assumes "h \<in> handlesFor s e" and "ev \<noteq> Disconnect h"
      and "step uuid now ev s = Some (out, s')"
  shows "h \<in> handlesFor s' e"
proof (cases "\<exists>x. sender ev = Some x \<and> x \<notin> connected s")
  case True
  with assms show ?thesis by (auto simp: step_def)
next
  case False
  with assms(3) have run: "handle_event uuid now ev s = Some (out, s')"
    by (auto simp: step_def split: option.splits)
  show ?thesis
  proof (cases ev)
    case (Connect x)
    with run assms(1) show ?thesis by (auto simp: handlesFor_def split: if_splits)
  next
    case (ProfileUpdate x p)
    with run have "s' = snd (on_profile_update x p s)" by auto
    with assms(1) show ?thesis by (auto simp: handlesFor_profile_update)
  next
    case (MatchRequest x k)
    with run have "emailToSockets s' = emailToSockets s"
      using match_request_frame by auto
    with assms(1) show ?thesis by (simp add: handlesFor_def)
  next
    case (ChatText x payload)
    with run have "s' = snd (chat_text_message now x payload s)" by auto
    with assms(1) show ?thesis by simp
  next
    case (ChatLeave x sid)
    with run have "s' = snd (chat_leave x sid s)" by auto
    with assms(1) show ?thesis by (simp add: handlesFor_def)
  next
    case (Reaction x payload)
    with run have "s' = snd (profile_reaction x payload s)" by auto
    with assms(1) show ?thesis by (simp add: handlesFor_def)
  next
    case (WebrtcOffer x sid d)
    with run have "s' = snd (webrtc_offer x sid d s)" by auto
    with assms(1) show ?thesis by simp
  next
    case (WebrtcAnswer x sid d)
    with run have "s' = snd (webrtc_answer x sid d s)" by auto
    with assms(1) show ?thesis by simp
  next
    case (WebrtcIce x sid d)
    with run have "s' = snd (webrtc_ice_candidate x sid d s)" by auto
    with assms(1) show ?thesis by simp
  next
    case (Disconnect x)
    with assms(2) have "x \<noteq> h" by simp
    moreover from run Disconnect
    have "s' = snd (disconnect x (s\<lparr>connected := connected s - {x}\<rparr>))" by auto
    ultimately show ?thesis
      using assms(1) by (simp add: handlesFor_disconnect) (simp add: handlesFor_def)
  next
    case (GetReputation x)
    with run have "s' = snd (get_reputation_endpoint x s)" by auto
    with assms(1) show ?thesis by (simp add: handlesFor_def)
  qed
qed

lemma profile_reaction_ban_notice:
  assumes "reaction_target r \<noteq> []" and "reaction_type r \<noteq> []"
      and "h \<in> handlesFor s (toLowerCase (reaction_target r))"
      and "banned (react (reaction_type r) (record_of (reputations s) (toLowerCase (reaction_target r))))"
  shows "SystemBanned (react (reaction_type r) (record_of (reputations s) (toLowerCase (reaction_target r))))
           \<in> set (delivered_to h (fst (profile_reaction h' r s)))"
  using assms
  by (auto simp: profile_reaction_def Let_def applyReaction_eq delivered_to_def handlesFor_def
                 image_iff split: option.splits)

text \<open>
  C10. A \<^verbatim>\<open>profile:update\<close> with a non-empty email registers the socket under that
  email (lower-cased) and removes it from no other email: after an update with email E1
  and a later one with email E2 the socket is in the sets of both. No event other than the
  socket's own disconnect takes a socket out of an email's set; the disconnect handler
  takes it out of every set. So a ban notice for E1, sent to the sockets registered for
  E1 when a reaction leaves E1's record banned, still reaches the socket.
\<close>

theorem profile_update_keeps_earlier_registrations:
  "(email p1 \<noteq> [] \<longrightarrow>
      h \<in> handlesFor (snd (on_profile_update h p1 s)) (toLowerCase (email p1))
      \<and> h \<in> handlesFor (snd (on_profile_update h p2 (snd (on_profile_update h p1 s)))) (toLowerCase (email p1)))
   \<and> (email p2 \<noteq> [] \<longrightarrow>
      h \<in> handlesFor (snd (on_profile_update h p2 (snd (on_profile_update h p1 s)))) (toLowerCase (email p2)))
   \<and> (h \<in> handlesFor s e \<and> ev \<noteq> Disconnect h \<and> step uuid now ev s = Some (out, s')
        \<longrightarrow> h \<in> handlesFor s' e)
   \<and> h \<notin> handlesFor (snd (disconnect h s)) e
   \<and> (reaction_target r \<noteq> [] \<and> reaction_type r \<noteq> []
        \<and> h \<in> handlesFor s (toLowerCase (reaction_target r))
        \<and> banned (react (reaction_type r) (record_of (reputations s) (toLowerCase (reaction_target r))))
        \<longrightarrow> SystemBanned (react (reaction_type r) (record_of (reputations s) (toLowerCase (reaction_target r))))
              \<in> set (delivered_to h (fst (profile_reaction h' r s))))"
  using handlesFor_step [of h s e ev uuid now out s'] profile_reaction_ban_notice [of r h s h']
  by (simp add: handlesFor_profile_update handlesFor_disconnect)

theorem profile_update_keeps_earlier_registrations_witness:
  "''h1'' \<in> handlesFor (snd (on_profile_update ''h1'' ann one_socket)) ''a@wisc.edu''
   \<and> ''h1'' \<in> handlesFor (snd (on_profile_update ''h1'' zed (snd (on_profile_update ''h1'' ann one_socket))))
                ''a@wisc.edu''
   \<and> ''h1'' \<in> handlesFor (snd (on_profile_update ''h1'' zed (snd (on_profile_update ''h1'' ann one_socket))))
                ''z@wisc.edu''
   \<and> ''h1'' \<in> handlesFor (snd (profile_reaction ''h1''
                  \<lparr>reaction_target = ''a@wisc.edu'', reaction_type = ''report'', reaction_sessionId = []\<rparr>
                  two_reports)) ''a@wisc.edu''
   \<and> ''h1'' \<notin> handlesFor (snd (disconnect ''h1'' two_reports)) ''a@wisc.edu''
   \<and> SystemBanned \<lparr>likes = 0, dislikes = 0, reports = 3, banned = True\<rparr>
        \<in> set (delivered_to ''h1'' (fst (profile_reaction ''h2''
                  \<lparr>reaction_target = ''a@wisc.edu'', reaction_type = ''report'', reaction_sessionId = []\<rparr>
                  two_reports)))"
proof -
  let ?r = "\<lparr>reaction_target = ''a@wisc.edu'', reaction_type = ''report'', reaction_sessionId = []\<rparr>"
  have la: "toLowerCase (email ann) = ''a@wisc.edu''" "email ann \<noteq> []"
    by (code_simp, simp add: ann_def)
  have lz: "toLowerCase (email zed) = ''z@wisc.edu''" "email zed \<noteq> []"
    by (code_simp, simp add: zed_def)
  have lt: "toLowerCase ''a@wisc.edu'' = ''a@wisc.edu''"
    by code_simp
  have reg: "''h1'' \<in> handlesFor two_reports ''a@wisc.edu''"
  proof -
    have "handlesFor two_reports ''a@wisc.edu''
            = handlesFor (snd (on_profile_update ''h1'' zed (snd (on_profile_update ''h1'' ann one_socket))))
                ''a@wisc.edu''"
      by (simp add: two_reports_def handlesFor_def)
    then show ?thesis using la lz by (simp add: handlesFor_profile_update)
  qed
  have conn: "''h1'' \<in> connected two_reports"
    by (simp add: two_reports_def one_socket_def)
  have st: "step demo_uuid 0 (Reaction ''h1'' ?r) two_reports
              = Some (fst (profile_reaction ''h1'' ?r two_reports), snd (profile_reaction ''h1'' ?r two_reports))"
    using conn by (simp add: step_def)
  have rec: "react ''report'' (record_of (reputations two_reports) ''a@wisc.edu'')
               = \<lparr>likes = 0, dislikes = 0, reports = 3, banned = True\<rparr>"
    by (simp add: two_reports_def record_of_def getReputation_def react_def Let_def
                  REPORT_THRESHOLD_def DISLIKE_THRESHOLD_def)
  show ?thesis
    using la lz lt reg st rec
      profile_update_keeps_earlier_registrations
        [of ann "''h1''" one_socket zed "''a@wisc.edu''" "Connect ''h1''" demo_uuid 0 "[]" one_socket ?r "''h2''"]
      profile_update_keeps_earlier_registrations
        [of ann "''h1''" two_reports zed "''a@wisc.edu''" "Reaction ''h1'' ?r" demo_uuid 0
            "fst (profile_reaction ''h1'' ?r two_reports)" "snd (profile_reaction ''h1'' ?r two_reports)"
            ?r "''h2''"]
    by simp
qed

subsection \<open>Session teardown\<close>

lemma map_of_delete_same [simp]: "map_of (AList.delete k al) k = None"
  by (simp add: delete_conv')

lemma map_of_delete_None: "map_of al k = None \<Longrightarrow> map_of (AList.delete k' al) k = None"
  by (simp add: delete_conv')

lemma map_of_update_other: "k' \<noteq> k \<Longrightarrow> map_of (AList.update k' v al) k = map_of al k"
  by (simp add: update_conv')

lemma endSession_out:
  "map_of (sessions s) sid = Some sess \<Longrightarrow>
   fst (endSession sid l s) =
     concat (map (\<lambda>participantId.
                    if participantId \<notin> connected s then []
                    else if participantId = l then [(To participantId, SystemSessionEnded sid)]
                    else [(To participantId, SystemPartnerLeft sid)]) (participants sess))"
  by (simp add: endSession_def)

lemma attemptPair_absent:
  assumes "attemptPair uuid now m s = Some (out, s')"
  shows "map_of (sessions s) sid = None \<Longrightarrow> \<forall>n\<ge>uuid_calls s. uuid n \<noteq> sid \<Longrightarrow>
         map_of (sessions s') sid = None"
  using assms
proof (induction rule: attemptPair_result_induct)
  case (short s)
  then show ?case by simp
next
  case (stale s first second rest out s')
  then show ?case by simp
next
  case (live s first second rest profileA profileB out s')
  from live.prems have "uuid (uuid_calls s) \<noteq> sid" by simp
  with live.prems show ?case
    by (intro live.IH) (simp_all add: map_of_update_other)
qed

lemma match_request_via_attemptPair:
  assumes "match_request uuid now h k s = Some (out, s')"
  shows "(sessions s' = sessions s \<and> uuid_calls s' = uuid_calls s)
         \<or> (\<exists>m s4 out2. sessions s4 = sessions s \<and> uuid_calls s4 = uuid_calls s
               \<and> attemptPair uuid now m s4 = Some (out2, s'))"
proof (cases "queue_key k")
  case None
  from match_request_no_queue [OF None assms] show ?thesis by auto
next
  case (Some m)
  show ?thesis
  proof (cases "profile (socket_data s h)")
    case None
    with assms Some show ?thesis by (simp add: match_request_def)
  next
    case (Some p)
    show ?thesis
    proof (cases "banned (fst (getReputation (email p) (reputations s)))")
      case True
      with assms \<open>queue_key k = Some m\<close> Some show ?thesis
        by (auto simp: match_request_def Let_def case_prod_beta)
    next
      case False
      let ?s4 = "(removeFromQueues h (s\<lparr>reputations := snd (getReputation (email p) (reputations s))\<rparr>))
                   \<lparr>socket_data := (socket_data s)(h := (socket_data s h)\<lparr>mode := Some m\<rparr>),
                    waitingQueues := (\<lambda>x. filter (\<lambda>entry. entry \<noteq> h) (waitingQueues s x))
                       (m := filter (\<lambda>entry. entry \<noteq> h) (waitingQueues s m) @ [h])\<rparr>"
      from assms \<open>queue_key k = Some m\<close> Some False
      obtain out2 where "attemptPair uuid now m ?s4 = Some (out2, s')"
        by (auto simp: match_request_def Let_def case_prod_beta removeFromQueues_def
                 split: option.splits)
      moreover have "sessions ?s4 = sessions s" "uuid_calls ?s4 = uuid_calls s" by simp_all
      ultimately show ?thesis by blast
    qed
  qed
qed

lemma step_absent:
  assumes "step uuid now ev s = Some (out, s')"
      and "map_of (sessions s) sid = None" and "\<forall>n\<ge>uuid_calls s. uuid n \<noteq> sid"
  shows "map_of (sessions s') sid = None \<and> uuid_calls s \<le> uuid_calls s'"
proof (cases "\<exists>x. sender ev = Some x \<and> x \<notin> connected s")
  case True
  with assms show ?thesis by (auto simp: step_def)
next
  case False
  with assms(1) have run: "handle_event uuid now ev s = Some (out, s')"
    by (auto simp: step_def split: option.splits)
  show ?thesis
  proof (cases ev)
    case (Connect x)
    with run assms(2) show ?thesis by (auto split: if_splits)
  next
    case (ProfileUpdate x p)
    with run have "s' = snd (on_profile_update x p s)" by auto
    with assms(2) show ?thesis by simp
  next
    case (MatchRequest x k)
    with run have mr: "match_request uuid now x k s = Some (out, s')" by simp
    from match_request_frame [OF mr] have le: "uuid_calls s \<le> uuid_calls s'" by simp
    have "map_of (sessions s') sid = None"
      using match_request_via_attemptPair [OF mr]
    proof (elim disjE exE conjE)
      assume "sessions s' = sessions s"
      with assms(2) show ?thesis by simp
    next
      fix m s4 out2
      assume eq: "sessions s4 = sessions s" "uuid_calls s4 = uuid_calls s"
         and ap: "attemptPair uuid now m s4 = Some (out2, s')"
      from eq assms(2,3) have "map_of (sessions s4) sid = None" "\<forall>n\<ge>uuid_calls s4. uuid n \<noteq> sid"
        by simp_all
      with ap show ?thesis by (rule attemptPair_absent)
    qed
    with le show ?thesis by simp
  next
    case (ChatText x payload)
    with run have "s' = snd (chat_text_message now x payload s)" by auto
    with assms(2) show ?thesis by simp
  next
    case (ChatLeave x k)
    with run have "s' = snd (chat_leave x k s)" by auto
    with assms(2) chat_leave_sessions [of x k s] show ?thesis
      by (auto simp: map_of_delete_None)
  next
    case (Reaction x payload)
    with run have "s' = snd (profile_reaction x payload s)" by auto
    with assms(2) show ?thesis by simp
  next
    case (WebrtcOffer x k d)
    with run have "s' = snd (webrtc_offer x k d s)" by auto
    with assms(2) show ?thesis by simp
  next
    case (WebrtcAnswer x k d)
    with run have "s' = snd (webrtc_answer x k d s)" by auto
    with assms(2) show ?thesis by simp
  next
    case (WebrtcIce x k d)
    with run have "s' = snd (webrtc_ice_candidate x k d s)" by auto
    with assms(2) show ?thesis by simp
  next
    case (Disconnect x)
    with run have "s' = snd (disconnect x (s\<lparr>connected := connected s - {x}\<rparr>))" by auto
    with assms(2) disconnect_sessions [of x "s\<lparr>connected := connected s - {x}\<rparr>"] show ?thesis
      by (auto simp: map_of_delete_None)
  next
    case (GetReputation x)
    with run have "s' = snd (get_reputation_endpoint x s)" by auto
    with assms(2) show ?thesis by simp
  qed
qed

lemma run_absent:
  "run uuid evs s = Some (out, s') \<Longrightarrow> map_of (sessions s) sid = None \<Longrightarrow>
   \<forall>n\<ge>uuid_calls s. uuid n \<noteq> sid \<Longrightarrow> map_of (sessions s') sid = None"
proof (induction evs arbitrary: s out)
  case Nil
  then show ?case by simp
next
  case (Cons tev evs)
  obtain now ev where tev: "tev = (now, ev)" by (cases tev)
  from Cons.prems(1) tev obtain out1 s1 out2 where
    st: "step uuid now ev s = Some (out1, s1)" and rest: "run uuid evs s1 = Some (out2, s')"
    by (auto split: option.splits)
  from step_absent [OF st Cons.prems(2,3)]
  have "map_of (sessions s1) sid = None" "uuid_calls s \<le> uuid_calls s1" by simp_all
  moreover from this Cons.prems(3) have "\<forall>n\<ge>uuid_calls s1. uuid n \<noteq> sid" by simp
  ultimately show ?case using rest by (intro Cons.IH)
qed


lemma findSessionBySocket_frame [simp]:
  "findSessionBySocket h (removeFromQueues h' s) = findSessionBySocket h s"
  "findSessionBySocket h (s\<lparr>connected := C\<rparr>) = findSessionBySocket h s"
  by (simp_all add: findSessionBySocket_def)

lemma notify_pair:
  assumes "ps = [a, b] \<or> ps = [b, a]" and "a \<noteq> b" and "b \<in> C"
  shows "delivered_to b (concat (map (\<lambda>participantId.
                    if participantId \<notin> C then []
                    else if participantId = a then [(To participantId, SystemSessionEnded sid)]
                    else [(To participantId, SystemPartnerLeft sid)]) ps))
           = [SystemPartnerLeft sid]"
    and "delivered_to a (concat (map (\<lambda>participantId.
                    if participantId \<notin> C then []
                    else if participantId = a then [(To participantId, SystemSessionEnded sid)]
                    else [(To participantId, SystemPartnerLeft sid)]) ps))
           = (if a \<in> C then [SystemSessionEnded sid] else [])"
  using assms by (auto simp: delivered_to_def)

lemmas handler_defs =
  step_def on_profile_update_def match_request_def chat_text_message_def chat_leave_def
  profile_reaction_def webrtc_offer_def webrtc_answer_def webrtc_ice_candidate_def disconnect_def
  get_reputation_endpoint_def endSession_def relayToSessionPeer_def findSessionBySocket_def
  removeFromQueues_def unregisterSocket_def registerSocketForEmail_def set_add_def
  getReputation_def applyReaction_def sanitizeProfile_def queue_key_def
  zero_reputation_def REPORT_THRESHOLD_def DISLIKE_THRESHOLD_def Let_def

text \<open>
  C5, as the claim states it: once the session is gone, any relay attempt carrying its id
  is dropped. The reaction, which the clients send with the session id, is not: after
  \<^verbatim>\<open>h1\<close> disconnects from its session \<^verbatim>\<open>s\<close> with \<^verbatim>\<open>h2\<close>, a reaction from
  \<^verbatim>\<open>h2\<close> carrying \<^verbatim>\<open>s\<close> changes the ledger and is broadcast.
\<close>

theorem reaction_after_teardown_is_processed:
  "map_option fst
     (run demo_uuid
        [(7, Disconnect ''h1''),
         (8, Reaction ''h2'' \<lparr>reaction_target = ''a@wisc.edu'', reaction_type = ''report'',
                               reaction_sessionId = ''s''\<rparr>)]
        chat_state)
   = Some [(To ''h2'', SystemPartnerLeft ''s''),
           (Everyone, ReputationBroadcast ''a@wisc.edu''
                         \<lparr>likes = 0, dislikes = 0, reports = 1, banned = False\<rparr>)]
   \<and> map_option (\<lambda>(out, s). (map_of (sessions s) ''s'', reputations s ''a@wisc.edu''))
     (run demo_uuid
        [(7, Disconnect ''h1''),
         (8, Reaction ''h2'' \<lparr>reaction_target = ''a@wisc.edu'', reaction_type = ''report'',
                               reaction_sessionId = ''s''\<rparr>)]
        chat_state)
   = Some (None, Some \<lparr>likes = 0, dislikes = 0, reports = 1, banned = False\<rparr>)
   \<and> reputations chat_state ''a@wisc.edu'' = None"
proof -
  have lower: "toLowerCase ''a@wisc.edu'' = ''a@wisc.edu''" by code_simp
  show ?thesis
    by (simp add: handler_defs chat_state_def initial_state_def lower)
qed

lemma first_session_found:
  assumes "map_of al sid = Some sess" and "a \<in> set (participants sess)"
      and "\<forall>(k, v)\<in>set al. a \<in> set (participants v) \<longrightarrow> k = sid"
  shows "find (\<lambda>(sessionId, sess). a \<in> set (participants sess)) al = Some (sid, sess)"
  using assms
proof (induction al)
  case Nil
  then show ?case by simp
next
  case (Cons entry al)
  obtain k v where entry: "entry = (k, v)" by (cases entry)
  show ?case
  proof (cases "a \<in> set (participants v)")
    case True
    with Cons.prems(3) entry have "k = sid" by simp
    with Cons.prems(1) entry True show ?thesis by simp
  next
    case False
    with Cons.prems(1,2) entry have "k \<noteq> sid" by auto
    with Cons.prems entry have "map_of al sid = Some sess"
      and "\<forall>(k, v)\<in>set al. a \<in> set (participants v) \<longrightarrow> k = sid"
      by simp_all
    with Cons.IH Cons.prems(2) False entry show ?thesis by simp
  qed
qed

lemma only_session_found:
  assumes "map_of (sessions s) sid = Some sess" and "a \<in> set (participants sess)"
      and "in_no_other_session a sid s"
  shows "findSessionBySocket a s = Some (sid, sess)"
  using assms unfolding findSessionBySocket_def in_no_other_session_def
  by (rule first_session_found)

text \<open>
  C5, amended. Let \<open>a\<close> and \<open>b\<close> be the two participants of the stored session \<open>sid\<close>,
  both connected. If \<open>a\<close> disconnects while it is a participant of no other stored
  session, \<open>b\<close> receives exactly one message, \<^verbatim>\<open>system:partner-left\<close> for \<open>sid\<close>, and
  \<open>a\<close> none. If \<open>a\<close> leaves with \<^verbatim>\<open>chat:leave\<close>, either naming \<open>sid\<close>, or naming no
  stored session while it is a participant of no other stored session, \<open>a\<close> receives
  exactly \<^verbatim>\<open>system:session-ended\<close> and \<open>b\<close> exactly \<^verbatim>\<open>system:partner-left\<close>, two
  different messages. Afterwards the registry has no session \<open>sid\<close>, and it has none
  after any further events either (\<^verbatim>\<open>uuidv4\<close> not returning \<open>sid\<close> again); there a
  chat message, an offer, an answer or an ICE candidate carrying \<open>sid\<close>, from whatever
  socket, is dropped: nothing is sent and the state is unchanged. A reaction carrying
  \<open>sid\<close> is not dropped: with a target and a type it is broadcast like any other.
  (Where \<open>a\<close> is in a second stored session, which C3 shows the code allows, the handlers
  end the first session they find for \<open>a\<close>; nothing is said here about that case.)
\<close>

theorem teardown_notifies_and_closes:
  assumes sess: "map_of (sessions s) sid = Some sess"
      and parts: "participants sess = [a, b] \<or> participants sess = [b, a]"
      and ne: "a \<noteq> b" and ca: "a \<in> connected s" and cb: "b \<in> connected s"
      and ev: "(ev = ChatLeave a sid \<and> sid \<noteq> [])
               \<or> (in_no_other_session a sid s
                   \<and> (ev = Disconnect a
                        \<or> (\<exists>k. ev = ChatLeave a k \<and> (k = [] \<or> map_of (sessions s) k = None))))"
      and st: "step uuid now ev s = Some (out, s')"
      and fresh: "\<forall>n\<ge>uuid_calls s. uuid n \<noteq> sid"
      and later: "run uuid evs s' = Some (out2, s2)"
  shows "delivered_to b out = [SystemPartnerLeft sid]
         \<and> delivered_to a out = (if ev = Disconnect a then [] else [SystemSessionEnded sid])
         \<and> SystemSessionEnded sid \<noteq> SystemPartnerLeft sid
         \<and> map_of (sessions s') sid = None
         \<and> map_of (sessions s2) sid = None
         \<and> chat_text_message now2 h
              \<lparr>chat_sessionId = sid, chat_body = body, chat_from = from, chat_timestamp = ts\<rparr> s2 = ([], s2)
         \<and> webrtc_offer h sid d s2 = ([], s2)
         \<and> webrtc_answer h sid d s2 = ([], s2)
         \<and> webrtc_ice_candidate h sid d s2 = ([], s2)
         \<and> (reaction_target r \<noteq> [] \<and> reaction_type r \<noteq> [] \<longrightarrow>
               fst (profile_reaction h (r\<lparr>reaction_sessionId := sid\<rparr>) s2) \<noteq> [])"
proof -
  have now: "delivered_to b out = [SystemPartnerLeft sid]
         \<and> delivered_to a out = (if ev = Disconnect a then [] else [SystemSessionEnded sid])
         \<and> sessions s' = AList.delete sid (sessions s) \<and> uuid_calls s' = uuid_calls s"
  proof -
    have "a \<in> set (participants sess)" using parts by auto
    then have "findSessionBySocket a s = Some (sid, sess)" if "in_no_other_session a sid s"
      using only_session_found [OF sess _ that] by simp
    with ev consider
        (disc) "ev = Disconnect a" "findSessionBySocket a s = Some (sid, sess)"
      | (leave) "ev = ChatLeave a sid" "sid \<noteq> []"
      | (fallback) k where "ev = ChatLeave a k" "k = [] \<or> map_of (sessions s) k = None"
                           "findSessionBySocket a s = Some (sid, sess)"
      by blast
    then show ?thesis
    proof cases
    case disc
    then have e: "ev = Disconnect a" and f: "findSessionBySocket a s = Some (sid, sess)"
      by simp_all
    let ?s0 = "removeFromQueues a (s\<lparr>connected := connected s - {a}\<rparr>)"
    have d: "disconnect a (s\<lparr>connected := connected s - {a}\<rparr>)
               = (fst (endSession sid a ?s0), unregisterSocket a (snd (endSession sid a ?s0)))"
      using f by (simp add: disconnect_def Let_def case_prod_beta)
    from st e ca have o: "out = fst (endSession sid a ?s0)"
      and s': "s' = unregisterSocket a (snd (endSession sid a ?s0))"
      by (simp_all add: step_def d)
    have m: "map_of (sessions ?s0) sid = Some sess" using sess by simp
    have cb': "b \<in> connected ?s0" using cb ne by simp
    have ca': "a \<notin> connected ?s0" by simp
    from notify_pair [OF parts ne cb', of sid] ca' e
    show ?thesis
      unfolding o s' endSession_out [OF m] by (simp add: endSession_sessions)
  next
    case leave
    then have e: "ev = ChatLeave a sid" and "sid \<noteq> []" by simp_all
    with sess have l: "chat_leave a sid s
                         = (fst (endSession sid a s), removeFromQueues a (snd (endSession sid a s)))"
      by (simp add: chat_leave_def Let_def case_prod_beta)
    from st e ca have o: "out = fst (endSession sid a s)"
      and s': "s' = removeFromQueues a (snd (endSession sid a s))"
      by (simp_all add: step_def l)
    from notify_pair [OF parts ne cb, of sid] ca e
    show ?thesis
      unfolding o s' endSession_out [OF sess] by (simp add: endSession_sessions)
  next
    case (fallback k)
    then have e: "ev = ChatLeave a k" and k: "k = [] \<or> map_of (sessions s) k = None"
       and f: "findSessionBySocket a s = Some (sid, sess)"
      by simp_all
    from k f have l: "chat_leave a k s
                         = (fst (endSession sid a s), removeFromQueues a (snd (endSession sid a s)))"
      by (auto simp: chat_leave_def Let_def case_prod_beta)
    from st e ca have o: "out = fst (endSession sid a s)"
      and s': "s' = removeFromQueues a (snd (endSession sid a s))"
      by (simp_all add: step_def l)
    from notify_pair [OF parts ne cb, of sid] ca e
    show ?thesis
      unfolding o s' endSession_out [OF sess] by (simp add: endSession_sessions)
  qed
  qed
  then have gone: "map_of (sessions s') sid = None" and "\<forall>n\<ge>uuid_calls s'. uuid n \<noteq> sid"
    using fresh by simp_all
  with later have gone2: "map_of (sessions s2) sid = None"
    by (intro run_absent [OF later])
  then have absent: "map_of (sessions s2) sid = None
      \<or> (\<exists>sess. map_of (sessions s2) sid = Some sess \<and> h \<notin> set (participants sess))"
    by simp
  have "chat_text_message now2 h
          \<lparr>chat_sessionId = sid, chat_body = body, chat_from = from, chat_timestamp = ts\<rparr> s2 = ([], s2)"
    using gone2 by (intro chat_text_message_rejects) simp
  moreover have "reaction_target r \<noteq> [] \<and> reaction_type r \<noteq> [] \<longrightarrow>
               fst (profile_reaction h (r\<lparr>reaction_sessionId := sid\<rparr>) s2) \<noteq> []"
    by (simp add: profile_reaction_def Let_def case_prod_beta)
  ultimately show ?thesis
    using now gone gone2 webrtc_rejects [OF absent] by simp
qed


lemma demo_uuid_later: "1 \<le> n \<Longrightarrow> demo_uuid n \<noteq> ''s''"
  by (cases n) (simp_all add: demo_uuid_def)

theorem teardown_notifies_and_closes_witness:
  "delivered_to ''h2'' (fst (disconnect ''h1'' (chat_state\<lparr>connected := connected chat_state - {''h1''}\<rparr>)))
     = [SystemPartnerLeft ''s'']
   \<and> delivered_to ''h1'' (fst (disconnect ''h1'' (chat_state\<lparr>connected := connected chat_state - {''h1''}\<rparr>)))
     = []
   \<and> map_of (sessions (snd (disconnect ''h1'' (chat_state\<lparr>connected := connected chat_state - {''h1''}\<rparr>)))) ''s''
     = None
   \<and> delivered_to ''h2'' (fst (chat_leave ''h1'' ''s'' chat_state)) = [SystemPartnerLeft ''s'']
   \<and> delivered_to ''h1'' (fst (chat_leave ''h1'' ''s'' chat_state)) = [SystemSessionEnded ''s'']
   \<and> webrtc_offer ''h2'' ''s'' (Blob ''sdp'') (snd (chat_leave ''h1'' ''s'' chat_state))
     = ([], snd (chat_leave ''h1'' ''s'' chat_state))
   \<and> fst (profile_reaction ''h2''
             \<lparr>reaction_target = ''a@wisc.edu'', reaction_type = ''like'', reaction_sessionId = ''s''\<rparr>
             (snd (chat_leave ''h1'' ''s'' chat_state))) \<noteq> []"
proof -
  let ?sess = "\<lparr>sess_id = ''s'', sess_mode = Text, participants = [''h1'', ''h2''], startedAt = 5\<rparr>"
  let ?d = "disconnect ''h1'' (chat_state\<lparr>connected := connected chat_state - {''h1''}\<rparr>)"
  let ?l = "chat_leave ''h1'' ''s'' chat_state"
  have sess: "map_of (sessions chat_state) ''s'' = Some ?sess"
    by (simp add: chat_state_def initial_state_def)
  have parts: "participants ?sess = [''h1'', ''h2''] \<or> participants ?sess = [''h2'', ''h1'']"
    by simp
  have ne: "''h1'' \<noteq> ''h2''" by simp
  have ca: "''h1'' \<in> connected chat_state" and cb: "''h2'' \<in> connected chat_state"
    by (simp_all add: chat_state_def)
  have found: "findSessionBySocket ''h1'' chat_state = Some (''s'', ?sess)"
    by (simp add: findSessionBySocket_def chat_state_def initial_state_def)
  have fresh: "\<forall>n\<ge>uuid_calls chat_state. demo_uuid n \<noteq> ''s''"
    by (simp add: chat_state_def demo_uuid_later)
  have only: "in_no_other_session ''h1'' ''s'' chat_state"
    by (simp add: in_no_other_session_def chat_state_def initial_state_def)
  have ev1: "(Disconnect ''h1'' = ChatLeave ''h1'' ''s'' \<and> ''s'' \<noteq> [])
               \<or> (in_no_other_session ''h1'' ''s'' chat_state
                   \<and> (Disconnect ''h1'' = Disconnect ''h1''
                        \<or> (\<exists>k. Disconnect ''h1'' = ChatLeave ''h1'' k
                                \<and> (k = [] \<or> map_of (sessions chat_state) k = None))))"
    using only by simp
  have ev2: "(ChatLeave ''h1'' ''s'' = ChatLeave ''h1'' ''s'' \<and> ''s'' \<noteq> [])
               \<or> (in_no_other_session ''h1'' ''s'' chat_state
                   \<and> (ChatLeave ''h1'' ''s'' = Disconnect ''h1''
                        \<or> (\<exists>k. ChatLeave ''h1'' ''s'' = ChatLeave ''h1'' k
                                \<and> (k = [] \<or> map_of (sessions chat_state) k = None))))"
    by simp
  have st1: "step demo_uuid 7 (Disconnect ''h1'') chat_state = Some (fst ?d, snd ?d)"
    using ca by (simp add: step_def)
  have st2: "step demo_uuid 7 (ChatLeave ''h1'' ''s'') chat_state = Some (fst ?l, snd ?l)"
    using ca by (simp add: step_def)
  have later1: "run demo_uuid [] (snd ?d) = Some ([], snd ?d)" by simp
  have c2: "''h2'' \<in> connected (snd ?l)" using cb by simp
  have later2: "run demo_uuid [(9, WebrtcOffer ''h2'' ''s'' (Blob ''sdp''))] (snd ?l)
                  = Some (fst (webrtc_offer ''h2'' ''s'' (Blob ''sdp'') (snd ?l)) @ [], snd ?l)"
    using c2 by (simp add: step_def prod_eq_iff)
  from teardown_notifies_and_closes [OF sess parts ne ca cb ev1 st1 fresh later1]
       teardown_notifies_and_closes [OF sess parts ne ca cb ev2 st2 fresh later2,
          of 9 "''h2''" "''x''" "''y''" None "Blob ''sdp''"
             "\<lparr>reaction_target = ''a@wisc.edu'', reaction_type = ''like'', reaction_sessionId = []\<rparr>"]
  show ?thesis by simp
qed

subsection \<open>The ban gate of match requests\<close>

lemma lower_emails [simp]:
  "toLowerCase ''A@wisc.edu'' = ''a@wisc.edu''"
  "toLowerCase ''a@wisc.edu'' = ''a@wisc.edu''"
  "toLowerCase ''z@wisc.edu'' = ''z@wisc.edu''"
  by code_simp+

text \<open>
  C4, as the claim states it: a banned email never appears in a queue nor as a participant
  of a session created thereafter. It does: \<^verbatim>\<open>h1\<close> queues while its email is clean, the
  email is then banned by three reports, \<^verbatim>\<open>h1\<close> stays in the queue, and the next
  request pairs it into a new session.
\<close>

theorem banned_while_queued_is_paired:
  "map_option (\<lambda>(out, s). (waitingQueues s Text, sessions s,
                            map_option email (profile (socket_data s ''h1'')),
                            banned (record_of (reputations s) ''a@wisc.edu'')))
     (run demo_uuid ban_while_queued initial_state)
   = Some ([''h1''], [], Some ''a@wisc.edu'', True)
   \<and> map_option (\<lambda>(out, s). (map (participants \<circ> snd) (sessions s),
                            map_option email (profile (socket_data s ''h1'')),
                            banned (record_of (reputations s) ''a@wisc.edu'')))
     (run demo_uuid (ban_while_queued @ [(10, MatchRequest ''h2'' ''text'')]) initial_state)
   = Some ([[''h1'', ''h2'']], Some ''a@wisc.edu'', True)"
  by (simp add: ban_while_queued_def report_a_def ann_def zed_def handler_defs attemptPair.simps
                initial_state_def record_of_def demo_uuid_def)

lemma banned_record_stored:
  "banned (record_of reps e) \<Longrightarrow> getReputation e reps = (record_of reps e, reps)"
  by (auto simp: record_of_def getReputation_def zero_reputation_def split: option.splits)

text \<open>
  C4, amended. A \<^verbatim>\<open>match:request\<close> for one of the two modes, from a socket whose
  profile's email has a banned record at that moment, is answered with exactly one
  \<^verbatim>\<open>system:banned\<close> notice carrying that record, and changes nothing: the socket is
  appended to no queue and no session is created. The gate acts at request time only.
\<close>

theorem banned_match_request_rejected:
  assumes "queue_key k = Some m"
      and "profile (socket_data s h) = Some p"
      and "banned (record_of (reputations s) (email p))"
  shows "match_request uuid now h k s
           = Some ([(To h, SystemBanned (record_of (reputations s) (email p)))], s)"
  using assms by (simp add: match_request_def banned_record_stored)


theorem banned_match_request_rejected_witness:
  "match_request demo_uuid 0 ''h1'' ''video'' banned_socket
     = Some ([(To ''h1'', SystemBanned \<lparr>likes = 0, dislikes = 0, reports = 3, banned = True\<rparr>)],
             banned_socket)"
proof -
  have k: "queue_key ''video'' = Some Video" by (simp add: queue_key_def)
  have p: "profile (socket_data banned_socket ''h1'') = Some (ann\<lparr>email := ''a@wisc.edu''\<rparr>)"
    by (simp add: banned_socket_def)
  have r: "record_of (reputations banned_socket) (email (ann\<lparr>email := ''a@wisc.edu''\<rparr>))
             = \<lparr>likes = 0, dislikes = 0, reports = 3, banned = True\<rparr>"
    by (simp add: banned_socket_def record_of_def getReputation_def)
  then have b: "banned (record_of (reputations banned_socket) (email (ann\<lparr>email := ''a@wisc.edu''\<rparr>)))"
    by simp
  from banned_match_request_rejected [OF k p b, of demo_uuid 0] r show ?thesis by simp
qed

subsection \<open>First come, first paired\<close>

lemma enqueued_fields [simp]:
  "sessions (enqueued h m e s) = sessions s"
  "uuid_calls (enqueued h m e s) = uuid_calls s"
  "connected (enqueued h m e s) = connected s"
  "emailToSockets (enqueued h m e s) = emailToSockets s"
  "profile (socket_data (enqueued h m e s) x) = profile (socket_data s x)"
  "record_of (reputations (enqueued h m e s)) e' = record_of (reputations s) e'"
  "waitingQueues (enqueued h m e s) m = filter (\<lambda>entry. entry \<noteq> h) (waitingQueues s m) @ [h]"
  by (simp_all add: enqueued_def Let_def removeFromQueues_def)

lemma match_request_enqueues:
  assumes "queue_key k = Some m" and "profile (socket_data s h) = Some p"
      and "\<not> banned (record_of (reputations s) (email p))"
  shows "match_request uuid now h k s =
           (case attemptPair uuid now m (enqueued h m (email p) s) of
              None \<Rightarrow> None
            | Some (out, s5) \<Rightarrow>
                Some ((To h, MatchQueued m (Suc (length (filter (\<lambda>entry. entry \<noteq> h) (waitingQueues s m)))))
                      # out, s5))"
  using assms
  by (simp add: match_request_def Let_def case_prod_beta record_of_def enqueued_def
                removeFromQueues_def split: option.split)

lemma eligible_cong:
  assumes "connected s' = connected s"
      and "\<And>x. profile (socket_data s' x) = profile (socket_data s x)"
      and "\<And>e. record_of (reputations s') e = record_of (reputations s) e"
  shows "eligible s' h = eligible s h"
  by (simp add: eligible_def assms split: option.split)

lemma first_of_pair:
  assumes k: "queue_key k = Some m" and q: "waitingQueues s m = []" and el: "eligible s a"
  shows "\<exists>out s'. step uuid now (MatchRequest a k) s = Some (out, s')
           \<and> waitingQueues s' m = [a] \<and> sessions s' = sessions s \<and> uuid_calls s' = uuid_calls s
           \<and> (\<forall>x. eligible s' x = eligible s x)"
proof -
  from el obtain p where c: "a \<in> connected s" and p: "profile (socket_data s a) = Some p"
    and nb: "\<not> banned (record_of (reputations s) (email p))"
    by (auto simp: eligible_def split: option.splits)
  let ?s4 = "enqueued a m (email p) s"
  have "waitingQueues ?s4 m = [a]" using q by simp
  then have ap: "attemptPair uuid now m ?s4 = Some ([], ?s4)"
    by (simp add: attemptPair_short)
  have "step uuid now (MatchRequest a k) s = Some ([(To a, MatchQueued m 1)], ?s4)"
    using c q by (simp add: step_def match_request_enqueues [OF k p nb] ap)
  moreover have "\<forall>x. eligible ?s4 x = eligible s x"
    by (intro allI eligible_cong) simp_all
  moreover have "waitingQueues ?s4 m = [a]" using q by simp
  ultimately show ?thesis by simp
qed


lemma second_of_pair:
  assumes k: "queue_key k = Some m" and q: "waitingQueues s m = [a]"
      and ela: "eligible s a" and elb: "eligible s b" and ne: "a \<noteq> b"
  shows "\<exists>out s'. step uuid now (MatchRequest b k) s = Some (out, s')
           \<and> waitingQueues s' m = []
           \<and> sessions s' = AList.update (uuid (uuid_calls s))
                              \<lparr>sess_id = uuid (uuid_calls s), sess_mode = m,
                               participants = [a, b], startedAt = now\<rparr> (sessions s)
           \<and> uuid_calls s' = Suc (uuid_calls s)
           \<and> (\<forall>x. eligible s' x = eligible s x)"
proof -
  from elb obtain p where cb: "b \<in> connected s" and p: "profile (socket_data s b) = Some p"
    and nb: "\<not> banned (record_of (reputations s) (email p))"
    by (auto simp: eligible_def split: option.splits)
  from ela obtain pa where ca: "a \<in> connected s" and pa: "profile (socket_data s a) = Some pa"
    by (auto simp: eligible_def split: option.splits)
  let ?s4 = "enqueued b m (email p) s"
  let ?s2 = "?s4\<lparr>waitingQueues := (waitingQueues ?s4)(m := []),
                 sessions := AList.update (uuid (uuid_calls ?s4))
                    \<lparr>sess_id = uuid (uuid_calls ?s4), sess_mode = m,
                     participants = [a, b], startedAt = now\<rparr> (sessions ?s4),
                 uuid_calls := Suc (uuid_calls ?s4)\<rparr>"
  have q4: "waitingQueues ?s4 m = a # b # []" using q ne by simp
  have c4: "a \<in> connected ?s4" "b \<in> connected ?s4" using ca cb by simp_all
  have short: "attemptPair uuid now m ?s2 = Some ([], ?s2)"
    by (rule attemptPair_short) simp
  obtain profileA profileB where
    sa: "sanitizeProfile (profile (socket_data ?s4 b)) = Some profileA"
    and sb: "sanitizeProfile (profile (socket_data ?s4 a)) = Some profileB"
    using p pa by (simp add: sanitizeProfile_def)
  have ap: "attemptPair uuid now m ?s4
              = Some ([(To a, MatchPaired (uuid (uuid_calls ?s4)) m profileA True),
                       (To b, MatchPaired (uuid (uuid_calls ?s4)) m profileB False)], ?s2)"
    by (simp only: attemptPair_live [OF q4 c4] sa sb short option.case prod.case)
  have "\<exists>out. step uuid now (MatchRequest b k) s = Some (out, ?s2)"
    using cb by (simp add: step_def match_request_enqueues [OF k p nb] ap)
  moreover have "\<forall>x. eligible ?s2 x = eligible s x"
    by (intro allI eligible_cong) simp_all
  ultimately show ?thesis by auto
qed

lemma update_fresh: "k \<notin> fst ` set al \<Longrightarrow> AList.update k v al = al @ [(k, v)]"
  by (induction al) auto

lemma fresh_ids_next:
  assumes "fresh_ids uuid s"
      and "sessions s' = sessions s @ [(uuid (uuid_calls s), v)]"
      and "uuid_calls s' = Suc (uuid_calls s)"
  shows "fresh_ids uuid s'"
proof -
  let ?c = "uuid_calls s"
  from assms(1) have a: "\<And>n. ?c \<le> n \<Longrightarrow> uuid n \<notin> fst ` set (sessions s)"
    and b: "\<And>i j. ?c \<le> i \<Longrightarrow> i < j \<Longrightarrow> uuid i \<noteq> uuid j"
    by (simp_all add: fresh_ids_def)
  have "uuid n \<notin> fst ` set (sessions s')" if "Suc ?c \<le> n" for n
  proof -
    from that have "?c \<le> n" "?c < n" by simp_all
    with a [of n] b [of ?c n] show ?thesis by (auto simp: assms(2))
  qed
  moreover have "uuid i \<noteq> uuid j" if "Suc ?c \<le> i" "i < j" for i j
    using that b [of i j] by simp
  ultimately show ?thesis by (simp add: fresh_ids_def assms(3))
qed


lemma pairs_induct [case_names pair empty single]:
  assumes "\<And>a b rest. P rest \<Longrightarrow> P (a # b # rest)" and "P []" and "\<And>x. P [x]"
  shows "P xs"
  using assms by (induction xs rule: pairs_of.induct) auto

text \<open>
  C1. Take a mode whose queue is empty and sockets that arrive with a \<^verbatim>\<open>match:request\<close>
  for it one after the other, each connected, with a profile and not banned, no two the
  same, and nothing else happening in between (no disconnect in particular). Then the
  requests all succeed and the sessions added to the registry are, in order, exactly the
  consecutive pairs of the arrival order: first with second, third with fourth, and so
  on; no socket is paired past an older waiting one. What stays in the queue is the last
  arrival when their number is odd, and nothing otherwise. For four arrivals
  \<open>h1, h2, h3, h4\<close> the sessions are \<open>(h1, h2)\<close> and \<open>(h3, h4)\<close>.
\<close>

theorem pairing_is_fifo:
  assumes k: "queue_key k = Some m"
      and q: "waitingQueues s m = []"
      and d: "distinct (map snd reqs)"
      and el: "\<forall>h\<in>set (map snd reqs). eligible s h"
      and fr: "fresh_ids uuid s"
  shows "\<exists>out s'. run uuid (map (\<lambda>(now, h). (now, MatchRequest h k)) reqs) s = Some (out, s')
           \<and> map (participants \<circ> snd) (sessions s')
               = map (participants \<circ> snd) (sessions s)
                 @ map (\<lambda>(a, b). [a, b]) (pairs_of (map snd reqs))
           \<and> waitingQueues s' m = (if even (length reqs) then [] else [snd (last reqs)])"
  using q d el fr
proof (induction reqs arbitrary: s rule: pairs_induct)
  case (pair ra rb rest)
  obtain n1 a n2 b where ra: "ra = (n1, a)" and rb: "rb = (n2, b)"
    by (cases ra, cases rb) auto
  from pair.prems ra rb have ne: "a \<noteq> b" and ela: "eligible s a" and elb: "eligible s b"
    and drest: "distinct (map snd rest)" and elrest: "\<forall>h\<in>set (map snd rest). eligible s h"
    by auto
  from first_of_pair [OF k pair.prems(1) ela, of uuid n1] obtain out1 s1 where
    st1: "step uuid n1 (MatchRequest a k) s = Some (out1, s1)"
    and q1: "waitingQueues s1 m = [a]" and se1: "sessions s1 = sessions s"
    and u1: "uuid_calls s1 = uuid_calls s" and el1: "\<And>x. eligible s1 x = eligible s x"
    by blast
  from ela elb el1 have ela1: "eligible s1 a" and elb1: "eligible s1 b" by simp_all
  from second_of_pair [OF k q1 ela1 elb1 ne, of uuid n2] obtain out2 s2 where
    st2: "step uuid n2 (MatchRequest b k) s1 = Some (out2, s2)"
    and q2: "waitingQueues s2 m = []"
    and se2: "sessions s2 = AList.update (uuid (uuid_calls s1))
                \<lparr>sess_id = uuid (uuid_calls s1), sess_mode = m,
                 participants = [a, b], startedAt = n2\<rparr> (sessions s1)"
    and u2: "uuid_calls s2 = Suc (uuid_calls s1)" and el2: "\<And>x. eligible s2 x = eligible s1 x"
    by blast
  from pair.prems(4) have "uuid (uuid_calls s) \<notin> fst ` set (sessions s)"
    by (simp add: fresh_ids_def)
  with se1 se2 u1 have se2': "sessions s2 = sessions s @ [(uuid (uuid_calls s),
                \<lparr>sess_id = uuid (uuid_calls s), sess_mode = m,
                 participants = [a, b], startedAt = n2\<rparr>)]"
    by (simp add: update_fresh)
  from u1 u2 have u2': "uuid_calls s2 = Suc (uuid_calls s)" by simp
  have fr2: "fresh_ids uuid s2"
    using pair.prems(4) se2' u2' by (rule fresh_ids_next)
  from elrest el1 el2 have elrest2: "\<forall>h\<in>set (map snd rest). eligible s2 h" by simp
  from pair.IH [OF q2 drest elrest2 fr2] obtain out3 s3 where
    r3: "run uuid (map (\<lambda>(now, h). (now, MatchRequest h k)) rest) s2 = Some (out3, s3)"
    and se3: "map (participants \<circ> snd) (sessions s3)
               = map (participants \<circ> snd) (sessions s2)
                 @ map (\<lambda>(a, b). [a, b]) (pairs_of (map snd rest))"
    and q3: "waitingQueues s3 m = (if even (length rest) then [] else [snd (last rest)])"
    by blast
  have run: "run uuid (map (\<lambda>(now, h). (now, MatchRequest h k)) (ra # rb # rest)) s
               = Some (out1 @ out2 @ out3, s3)"
    using st1 st2 r3 by (simp add: ra rb)
  have sess: "map (participants \<circ> snd) (sessions s3)
               = map (participants \<circ> snd) (sessions s)
                 @ map (\<lambda>(a, b). [a, b]) (pairs_of (map snd (ra # rb # rest)))"
    using se3 se2' by (simp add: ra rb)
  have queue: "waitingQueues s3 m
                 = (if even (length (ra # rb # rest)) then [] else [snd (last (ra # rb # rest))])"
    using q3 by (cases rest) auto
  from run sess queue show ?case by blast
next
  case empty
  then show ?case by simp
next
  case (single r)
  obtain n a where r: "r = (n, a)" by (cases r)
  from single.prems r have "eligible s a" by simp
  from first_of_pair [OF k single.prems(1) this, of uuid n] obtain out1 s1 where
    "step uuid n (MatchRequest a k) s = Some (out1, s1)"
    "waitingQueues s1 m = [a]" "sessions s1 = sessions s"
    by blast
  then show ?case by (simp add: r)
qed

lemma demo_uuid_inj [simp]: "demo_uuid i = demo_uuid j \<longleftrightarrow> i = j"
  by (simp add: demo_uuid_def)

theorem pairing_is_fifo_witness:
  "map_option (\<lambda>(out, s). (map (participants \<circ> snd) (sessions s), waitingQueues s Text))
     (run demo_uuid
        [(1, MatchRequest ''h1'' ''text''), (2, MatchRequest ''h2'' ''text''),
         (3, MatchRequest ''h3'' ''text''), (4, MatchRequest ''h4'' ''text'')]
        four_sockets)
   = Some ([[''h1'', ''h2''], [''h3'', ''h4'']], [])"
proof -
  let ?reqs = "[(1, ''h1''), (2, ''h2''), (3, ''h3''), (4::nat, ''h4'')]"
  have k: "queue_key ''text'' = Some Text" by (simp add: queue_key_def)
  have q: "waitingQueues four_sockets Text = []" by (simp add: four_sockets_def initial_state_def)
  have d: "distinct (map snd ?reqs)" by simp
  have el: "\<forall>h\<in>set (map snd ?reqs). eligible four_sockets h"
    by (simp add: eligible_def four_sockets_def initial_state_def zero_reputation_def)
  have fr: "fresh_ids demo_uuid four_sockets"
    by (simp add: fresh_ids_def four_sockets_def initial_state_def)
  from pairing_is_fifo [OF k q d el fr] obtain out s' where
    "run demo_uuid (map (\<lambda>(now, h). (now, MatchRequest h ''text'')) ?reqs) four_sockets = Some (out, s')"
    "map (participants \<circ> snd) (sessions s')
       = map (participants \<circ> snd) (sessions four_sockets)
         @ map (\<lambda>(a, b). [a, b]) (pairs_of (map snd ?reqs))"
    "waitingQueues s' Text = (if even (length ?reqs) then [] else [snd (last ?reqs)])"
    by blast
  then show ?thesis by (simp add: four_sockets_def initial_state_def)
qed

subsection \<open>The ban rule in every reachable state\<close>

lemma profile_update_reputations:
  "reputations (snd (on_profile_update h p s))
     = snd (getReputation (toLowerCase (email p)) (reputations s))"
  by (simp add: on_profile_update_def Let_def case_prod_beta)

lemma profile_reaction_reputations:
  "reputations (snd (profile_reaction h p s))
     = (if reaction_target p = [] \<or> reaction_type p = [] then reputations s
        else snd (applyReaction (toLowerCase (reaction_target p)) (reaction_type p) (reputations s)))"
  by (simp add: profile_reaction_def Let_def case_prod_beta)

lemma get_reputation_endpoint_reputations:
  "reputations (snd (get_reputation_endpoint e s)) = snd (getReputation (toLowerCase e) (reputations s))"
  by (simp add: get_reputation_endpoint_def case_prod_beta)

lemma match_request_records:
  assumes "match_request uuid now h k s = Some (out, s')"
  shows "record_of (reputations s') e = record_of (reputations s) e"
proof (cases "queue_key k")
  case None
  from match_request_no_queue [OF None assms] show ?thesis by auto
next
  case (Some m)
  show ?thesis
  proof (cases "profile (socket_data s h)")
    case None
    with assms Some show ?thesis by (simp add: match_request_def)
  next
    case (Some p)
    show ?thesis
    proof (cases "banned (record_of (reputations s) (email p))")
      case True
      with assms \<open>queue_key k = Some m\<close> Some show ?thesis
        by (auto simp: match_request_def Let_def case_prod_beta record_of_def [symmetric])
    next
      case False
      from assms obtain out2 where "attemptPair uuid now m (enqueued h m (email p) s) = Some (out2, s')"
        by (auto simp: match_request_enqueues [OF \<open>queue_key k = Some m\<close> Some False]
                 split: option.splits)
      from attemptPair_frame [OF this] show ?thesis by simp
    qed
  qed
qed

lemma step_ban_rule:
  assumes "step uuid now ev s = Some (out, s')"
      and inv: "\<And>x. ban_rule (record_of (reputations s) x)"
  shows "ban_rule (record_of (reputations s') e)"
proof (cases "\<exists>x. sender ev = Some x \<and> x \<notin> connected s")
  case True
  with assms show ?thesis by (auto simp: step_def)
next
  case False
  with assms(1) have run: "handle_event uuid now ev s = Some (out, s')"
    by (auto simp: step_def split: option.splits)
  show ?thesis
  proof (cases ev)
    case (Connect x)
    with run inv [of e] show ?thesis by (auto split: if_splits)
  next
    case (ProfileUpdate x p)
    with run have "s' = snd (on_profile_update x p s)" by auto
    with inv [of e] show ?thesis by (simp add: profile_update_reputations)
  next
    case (MatchRequest x k)
    with run have "match_request uuid now x k s = Some (out, s')" by simp
    from match_request_records [OF this] inv [of e] show ?thesis by simp
  next
    case (ChatText x payload)
    with run have "s' = snd (chat_text_message now x payload s)" by auto
    with inv [of e] show ?thesis by simp
  next
    case (ChatLeave x k)
    with run have "s' = snd (chat_leave x k s)" by auto
    with inv [of e] show ?thesis by simp
  next
    case (Reaction x payload)
    with run have "s' = snd (profile_reaction x payload s)" by auto
    with inv show ?thesis
      by (simp add: profile_reaction_reputations ban_rule_applyReaction_ledger)
  next
    case (WebrtcOffer x k d)
    with run have "s' = snd (webrtc_offer x k d s)" by auto
    with inv [of e] show ?thesis by simp
  next
    case (WebrtcAnswer x k d)
    with run have "s' = snd (webrtc_answer x k d s)" by auto
    with inv [of e] show ?thesis by simp
  next
    case (WebrtcIce x k d)
    with run have "s' = snd (webrtc_ice_candidate x k d s)" by auto
    with inv [of e] show ?thesis by simp
  next
    case (Disconnect x)
    with run have "s' = snd (disconnect x (s\<lparr>connected := connected s - {x}\<rparr>))" by auto
    with inv [of e] show ?thesis by simp
  next
    case (GetReputation x)
    with run have "s' = snd (get_reputation_endpoint x s)" by auto
    with inv [of e] show ?thesis by (simp add: get_reputation_endpoint_reputations)
  qed
qed

lemma run_ban_rule:
  "run uuid evs s = Some (out, s') \<Longrightarrow> (\<And>x. ban_rule (record_of (reputations s) x)) \<Longrightarrow>
   ban_rule (record_of (reputations s') e)"
proof (induction evs arbitrary: s out e)
  case Nil
  then show ?case by simp
next
  case (Cons tev evs)
  obtain now ev where tev: "tev = (now, ev)" by (cases tev)
  from Cons.prems(1) tev obtain out1 s1 out2 where
    st: "step uuid now ev s = Some (out1, s1)" and rest: "run uuid evs s1 = Some (out2, s')"
    by (auto split: option.splits)
  have "ban_rule (record_of (reputations s1) x)" for x
    using st Cons.prems(2) by (rule step_ban_rule)
  with rest show ?case by (rule Cons.IH)
qed

lemma reachable_ban_rule:
  "run uuid evs initial_state = Some (out, s) \<Longrightarrow> ban_rule (record_of (reputations s) e)"
  by (erule run_ban_rule) (simp add: initial_state_def)

text \<open>
  C2. The record of every email satisfies
  \<open>banned = (reports \<ge> 3 \<or> dislikes \<ge> 10)\<close> after every sequence of
  \<^verbatim>\<open>applyReaction\<close> calls made on the empty ledger, and so does the record each further
  call returns; the same holds of the ledger in every state the server reaches from its
  initial state, whatever the events. One \<^verbatim>\<open>applyReaction\<close> call, on any ledger,
  decreases none of the three counters of any email and never turns \<open>banned\<close> from true
  to false.
\<close>

theorem applyReaction_ban_rule_monotone:
  "ban_rule (record_of (applyReactions calls Map.empty) e)
   \<and> ban_rule (fst (applyReaction e' t (applyReactions calls Map.empty)))
   \<and> (run uuid evs initial_state = Some (out, s) \<longrightarrow> ban_rule (record_of (reputations s) e))
   \<and> likes (record_of reps e) \<le> likes (record_of (snd (applyReaction e' t reps)) e)
   \<and> dislikes (record_of reps e) \<le> dislikes (record_of (snd (applyReaction e' t reps)) e)
   \<and> reports (record_of reps e) \<le> reports (record_of (snd (applyReaction e' t reps)) e)
   \<and> (banned (record_of reps e) \<longrightarrow> banned (record_of (snd (applyReaction e' t reps)) e))"
proof -
  have inv: "ban_rule (record_of (applyReactions calls Map.empty) x)" for x
    by (rule ban_rule_applyReactions) simp
  have res: "ban_rule (fst (applyReaction e' t (applyReactions calls Map.empty)))"
    by (simp add: fst_applyReaction react_ban_rule inv)
  have reach: "run uuid evs initial_state = Some (out, s) \<longrightarrow> ban_rule (record_of (reputations s) e)"
    by (auto dest: reachable_ban_rule)
  show ?thesis
    using inv [of e] res reach applyReaction_ledger_monotone [of reps e e' t] by simp
qed

theorem applyReaction_ban_rule_monotone_witness:
  "ban_rule (record_of (applyReactions [(''a@wisc.edu'', ''report''), (''a@wisc.edu'', ''report''),
                                        (''a@wisc.edu'', ''report'')] Map.empty) ''a@wisc.edu'')
   \<and> banned (record_of (applyReactions [(''a@wisc.edu'', ''report''), (''a@wisc.edu'', ''report''),
                                        (''a@wisc.edu'', ''report'')] Map.empty) ''a@wisc.edu'')
   \<and> banned (record_of (snd (applyReaction ''a@wisc.edu'' ''like''
        (applyReactions [(''a@wisc.edu'', ''report''), (''a@wisc.edu'', ''report''),
                         (''a@wisc.edu'', ''report'')] Map.empty))) ''a@wisc.edu'')
   \<and> map_option (\<lambda>(out, s). ban_rule (record_of (reputations s) ''a@wisc.edu''))
         (run demo_uuid ban_while_queued initial_state) = Some True"
proof -
  let ?calls = "[(''a@wisc.edu'', ''report''), (''a@wisc.edu'', ''report''), (''a@wisc.edu'', ''report'')]"
  have b: "banned (record_of (applyReactions ?calls Map.empty) ''a@wisc.edu'')"
    by (simp add: record_of_applyReaction record_of_upd react_def Let_def zero_reputation_def
                  REPORT_THRESHOLD_def DISLIKE_THRESHOLD_def)
  have "map_option (\<lambda>(out, s). banned (record_of (reputations s) ''a@wisc.edu''))
          (run demo_uuid ban_while_queued initial_state) = Some True"
    by code_simp
  then obtain out s where r: "run demo_uuid ban_while_queued initial_state = Some (out, s)"
    by auto
  show ?thesis
    using b r applyReaction_ban_rule_monotone
            [of ?calls "''a@wisc.edu''" "''a@wisc.edu''" "''like''" demo_uuid ban_while_queued out s
                "applyReactions ?calls Map.empty"]
    by simp
qed

subsection \<open>Draining a queue with stale entries\<close>





subsection \<open>No stale entry in a reachable queue\<close>















subsection \<open>Where the code departs from the stated behaviour\<close>

text \<open>
  C3 (the code breaks the claim). \<^verbatim>\<open>match:request\<close> removes the socket from the queues
  but does not look at the session registry: after \<^verbatim>\<open>h1\<close>, in session \<^verbatim>\<open>s\<close> with
  \<^verbatim>\<open>h2\<close>, asks again and \<^verbatim>\<open>h3\<close> arrives, \<^verbatim>\<open>h1\<close> is a participant of the two stored
  sessions \<^verbatim>\<open>s\<close> and \<^verbatim>\<open>s#\<close>. When \<^verbatim>\<open>h1\<close> then disconnects, only the first session
  found is ended; the other stays in the registry with the departed socket, and its other
  participant \<^verbatim>\<open>h3\<close> is told nothing.
\<close>

theorem rematch_puts_socket_in_two_sessions:
  "map_option (\<lambda>(out, s). map (\<lambda>(sid, sess). (sid, participants sess)) (sessions s))
     (run demo_uuid rematch initial_state)
   = Some [(''s'', [''h1'', ''h2'']), (''s#'', [''h1'', ''h3''])]
   \<and> map_option (\<lambda>(out, s). (map (\<lambda>(sid, sess). (sid, participants sess)) (sessions s),
                            ''h1'' \<in> connected s, teardown_notices out))
     (run demo_uuid (rematch @ [(11, Disconnect ''h1'')]) initial_state)
   = Some ([(''s#'', [''h1'', ''h3''])], False, [(To ''h2'', SystemPartnerLeft ''s'')])"
proof (rule conjI)
  show "map_option (\<lambda>(out, s). map (\<lambda>(sid, sess). (sid, participants sess)) (sessions s))
     (run demo_uuid rematch initial_state)
   = Some [(''s'', [''h1'', ''h2'']), (''s#'', [''h1'', ''h3''])]"
    by code_simp
  show "map_option (\<lambda>(out, s). (map (\<lambda>(sid, sess). (sid, participants sess)) (sessions s),
                            ''h1'' \<in> connected s, teardown_notices out))
     (run demo_uuid (rematch @ [(11, Disconnect ''h1'')]) initial_state)
   = Some ([(''s#'', [''h1'', ''h3''])], False, [(To ''h2'', SystemPartnerLeft ''s'')])"
    by code_simp
qed

end
